theory Spec2Isabelle
  imports Complex_Main "HOL-Library.Word" "HOL-Library.AList"
begin

section \<open>Exceptions\<close>

text \<open>
  The script \<^verbatim>\<open>scripts/resize-cocktail-images.py\<close> has two layers of handlers: the
  per-file \<^verbatim>\<open>except Exception as e\<close> inside the loop, and the top-level
  \<^verbatim>\<open>except KeyboardInterrupt\<close> / \<^verbatim>\<open>except Exception as e\<close> around
  \<^verbatim>\<open>resize_images()\<close>. Python's \<^verbatim>\<open>KeyboardInterrupt\<close> derives from
  \<^verbatim>\<open>BaseException\<close> and not from \<^verbatim>\<open>Exception\<close>, so the two are kept apart.
  An \<open>Exception\<close> carries the text that \<^verbatim>\<open>str(e)\<close> prints.
\<close>

datatype exn = Exception string | KeyboardInterrupt

section \<open>Paths (pathlib)\<close>

text \<open>
  A path is the list of its components below the filesystem root.
  \<^verbatim>\<open>Path.parent\<close> drops the last component (the root is its own parent),
  \<^verbatim>\<open>Path.name\<close> is the last component, \<^verbatim>\<open>p / c\<close> appends one.
\<close>

type_synonym path = "string list"

definition parent :: "path \<Rightarrow> path" where
  "parent p = butlast p"

definition name :: "path \<Rightarrow> string" where
  "name p = (case rev p of [] \<Rightarrow> [] | c # _ \<Rightarrow> c)"

text \<open>\<^verbatim>\<open>str.rfind(c)\<close>: the highest index of \<open>c\<close>, or \<open>-1\<close>.\<close>

fun rfind :: "char \<Rightarrow> string \<Rightarrow> int" where
  "rfind c [] = -1"
| "rfind c (x # xs) =
     (let r = rfind c xs in if 0 \<le> r then r + 1 else if x = c then 0 else -1)"

text \<open>
  \<^verbatim>\<open>Path.suffix\<close> and \<^verbatim>\<open>Path.stem\<close> as pathlib computes them:
  \<^verbatim>\<open>i = name.rfind('.')\<close>; when \<^verbatim>\<open>0 < i < len(name) - 1\<close> the suffix is
  \<^verbatim>\<open>name[i:]\<close> and the stem \<^verbatim>\<open>name[:i]\<close>, otherwise the suffix is empty and
  the stem is the whole name.
\<close>

definition suffix :: "string \<Rightarrow> string" where
  "suffix n = (let i = rfind CHR ''.'' n in
     if 0 < i \<and> i < int (length n) - 1 then drop (nat i) n else [])"

definition stem :: "string \<Rightarrow> string" where
  "stem n = (let i = rfind CHR ''.'' n in
     if 0 < i \<and> i < int (length n) - 1 then take (nat i) n else n)"

text \<open>\<^verbatim>\<open>str.lower()\<close> on the ASCII letters (a character is a byte here).\<close>

definition lower_char :: "char \<Rightarrow> char" where
  "lower_char c =
     (case map_of (zip ''ABCDEFGHIJKLMNOPQRSTUVWXYZ'' ''abcdefghijklmnopqrstuvwxyz'') c of
        Some d \<Rightarrow> d
      | None \<Rightarrow> c)"

definition lower :: "string \<Rightarrow> string" where
  "lower s = map lower_char s"

text \<open>\<^verbatim>\<open>str(path)\<close>: the components joined by slashes.\<close>

definition str_path :: "path \<Rightarrow> string" where
  "str_path p = (if p = [] then ''/'' else concat (map (\<lambda>c. ''/'' @ c) p))"

text \<open>Decimal rendering of a number in an f-string.\<close>

function str_nat :: "nat \<Rightarrow> string" where
  "str_nat n = (if n < 10 then [''0123456789'' ! n]
                else str_nat (n div 10) @ [''0123456789'' ! (n mod 10)])"
  by pat_completeness auto
termination
  by (relation "measure id") auto

declare str_nat.simps [simp del]

section \<open>The filesystem\<close>

text \<open>
  The filesystem is an association list from the canonical paths of its files and
  directories to nodes; its order is the order in which the operating system enumerates
  entries (the script does not sort). A regular file holds bytes.

  Which file a path denotes is the filesystem's business: it follows symbolic links, and
  on a case-insensitive volume it does not tell spellings apart. A \<open>naming\<close> maps a
  path to the canonical path of the file it denotes. On a filesystem without links and
  with case-sensitive names it is the identity.
\<close>

datatype node = Dir | File "8 word list"

type_synonym fs = "(path \<times> node) list"

type_synonym naming = "path \<Rightarrow> path"

text \<open>The file name in the text of an \<^verbatim>\<open>OSError\<close>, in quotes as Python prints it.\<close>

definition quoted :: "path \<Rightarrow> string" where
  "quoted p = [CHR 0x27] @ str_path p @ [CHR 0x27]"

text \<open>
  \<^verbatim>\<open>Path.mkdir(exist_ok=True)\<close> (with \<^verbatim>\<open>parents=False\<close>): nothing happens when
  the path denotes a directory already; a path that denotes a file still raises
  \<^verbatim>\<open>FileExistsError\<close>; a missing parent raises \<^verbatim>\<open>FileNotFoundError\<close>.
\<close>

definition mkdir_exist_ok :: "naming \<Rightarrow> path \<Rightarrow> fs \<Rightarrow> exn + fs" where
  "mkdir_exist_ok K p fs =
     (case map_of fs (K p) of
        Some Dir \<Rightarrow> Inr fs
      | Some (File _) \<Rightarrow> Inl (Exception (''[Errno 17] File exists: '' @ quoted p))
      | None \<Rightarrow>
          (case map_of fs (parent (K p)) of
             Some Dir \<Rightarrow> Inr (fs @ [(K p, Dir)])
           | Some (File _) \<Rightarrow> Inl (Exception (''[Errno 20] Not a directory: '' @ quoted p))
           | None \<Rightarrow> Inl (Exception (''[Errno 2] No such file or directory: '' @ quoted p))))"

text \<open>
  \<^verbatim>\<open>Path.iterdir()\<close>: the entries directly under the directory that the path
  denotes, files and directories alike, in the filesystem's order, each as the path
  joined with the entry's name.
\<close>

definition iterdir :: "naming \<Rightarrow> path \<Rightarrow> fs \<Rightarrow> exn + path list" where
  "iterdir K d fs =
     (case map_of fs (K d) of
        Some Dir \<Rightarrow>
          Inr (map (\<lambda>q. d @ [name q])
                 (filter (\<lambda>q. q \<noteq> [] \<and> parent q = K d) (map fst fs)))
      | Some (File _) \<Rightarrow> Inl (Exception (''[Errno 20] Not a directory: '' @ quoted d))
      | None \<Rightarrow> Inl (Exception (''[Errno 2] No such file or directory: '' @ quoted d)))"

section \<open>Images and the imaging library\<close>

text \<open>
  A Pillow image: its mode (a string such as \<^verbatim>\<open>'RGB'\<close>, \<^verbatim>\<open>'RGBA'\<close>,
  \<^verbatim>\<open>'LA'\<close>, \<^verbatim>\<open>'L'\<close>, \<^verbatim>\<open>'P'\<close>), its size \<open>(width, height)\<close> and
  its pixels as rows of band values, one byte per band.
\<close>

type_synonym pixel = "8 word list"

record image =
  mode :: string
  size_img :: "nat \<times> nat"
  pixels :: "pixel list list"

datatype resampling = NEAREST | BOX | BILINEAR | HAMMING | BICUBIC | LANCZOS

type_synonym box = "rat \<times> rat \<times> rat \<times> rat"

text \<open>
  The codecs and kernels of the imaging library and the console are not part of the
  repository; they are parameters of the model. Each is a function of its arguments:
  \<^item> \<open>decode\<close>: \<^verbatim>\<open>Image.open\<close> and the loading of the pixel data from the bytes of a file;
  \<^item> \<open>convert_pixels\<close>: the pixel data of \<^verbatim>\<open>img.convert(mode)\<close>;
  \<^item> \<open>resample\<close>: the pixel data that the resampling kernel computes for
    a target size, a filter and a source box;
  \<^item> \<open>encode\<close>: the bytes that \<^verbatim>\<open>img.save(path, format, quality=q, optimize=o)\<close> writes;
  \<^item> \<open>print_raises\<close>: the message of the exception that \<^verbatim>\<open>print\<close> raises for a
    text, if it raises (\<^verbatim>\<open>UnicodeEncodeError\<close> when the console's encoding has no
    code for a character of the text, \<^verbatim>\<open>OSError\<close> when the stream is broken).
  The library calls may raise; a \<^verbatim>\<open>KeyboardInterrupt\<close> delivered while a library call
  runs is a possible result of the call.
\<close>

record env =
  decode :: "8 word list \<Rightarrow> exn + image"
  convert_pixels :: "image \<Rightarrow> string \<Rightarrow> exn + pixel list list"
  resample :: "image \<Rightarrow> nat \<times> nat \<Rightarrow> resampling \<Rightarrow> box \<Rightarrow> exn + pixel list list"
  encode :: "image \<Rightarrow> string \<Rightarrow> nat \<Rightarrow> bool \<Rightarrow> exn + 8 word list"
  print_raises :: "string \<Rightarrow> string option"

text \<open>\<^verbatim>\<open>Image.open(path)\<close>: the path has to denote a readable file that decodes.\<close>

definition Image_open :: "naming \<Rightarrow> env \<Rightarrow> fs \<Rightarrow> path \<Rightarrow> exn + image" where
  "Image_open K L fs p =
     (case map_of fs (K p) of
        Some (File b) \<Rightarrow> decode L b
      | Some Dir \<Rightarrow> Inl (Exception (''[Errno 21] Is a directory: '' @ quoted p))
      | None \<Rightarrow> Inl (Exception (''[Errno 2] No such file or directory: '' @ quoted p)))"

text \<open>\<^verbatim>\<open>Image.new(mode, size, color)\<close>: every pixel is \<open>color\<close>.\<close>

definition Image_new :: "string \<Rightarrow> nat \<times> nat \<Rightarrow> pixel \<Rightarrow> image" where
  "Image_new m sz color =
     \<lparr>mode = m, size_img = sz, pixels = replicate (snd sz) (replicate (fst sz) color)\<rparr>"

text \<open>The number of bands of a mode, and \<^verbatim>\<open>img.split()\<close>: one \<^verbatim>\<open>'L'\<close> image per band.\<close>

definition getbands :: "string \<Rightarrow> nat" where
  "getbands m =
     (if m \<in> set [''1'', ''L'', ''P'', ''I'', ''F''] then 1
      else if m \<in> set [''LA'', ''PA'', ''La''] then 2
      else if m \<in> set [''RGB'', ''YCbCr'', ''LAB'', ''HSV''] then 3
      else 4)"

definition split_img :: "image \<Rightarrow> image list" where
  "split_img im =
     map (\<lambda>k. \<lparr>mode = ''L'', size_img = size_img im,
                pixels = map (map (\<lambda>p. take 1 (drop k p))) (pixels im)\<rparr>)
         [0 ..< getbands (mode im)]"

text \<open>
  \<^verbatim>\<open>background.paste(img, mask=m)\<close> onto an \<^verbatim>\<open>'RGB'\<close> canvas of the same size,
  for a source of mode \<^verbatim>\<open>'RGBA'\<close> or \<^verbatim>\<open>'LA'\<close> (the only call the script makes).
  Pillow keeps every multi-band pixel in four bytes, \<^verbatim>\<open>'LA'\<close> as \<open>(L, L, L, A)\<close>, and
  pastes such a source into an \<^verbatim>\<open>'RGB'\<close> image without converting it: the canvas
  receives the first three bytes. Without a mask the region is overwritten. With an
  \<^verbatim>\<open>'L'\<close> mask each band is blended, \<^verbatim>\<open>BLEND8(mask, out, in)\<close> being
  \<^verbatim>\<open>DIV255(out * (255 - mask) + in * mask)\<close> with
  \<^verbatim>\<open>DIV255(a) = (tmp = a + 128, ((tmp >> 8) + tmp) >> 8)\<close>.
\<close>

fun storage :: "string \<Rightarrow> pixel \<Rightarrow> pixel" where
  "storage m [l, a] = (if m = ''LA'' then [l, l, l, a] else [l, a])"
| "storage m p = p"

definition div255 :: "nat \<Rightarrow> nat" where
  "div255 a = (let tmp = a + 128 in (tmp div 256 + tmp) div 256)"

definition blend8 :: "8 word \<Rightarrow> 8 word \<Rightarrow> 8 word \<Rightarrow> 8 word" where
  "blend8 msk in1 in2 =
     of_nat (div255 (unat in1 * (255 - unat msk) + unat in2 * unat msk))"

definition paste_pixel :: "string \<Rightarrow> pixel option \<Rightarrow> pixel \<Rightarrow> pixel \<Rightarrow> pixel" where
  "paste_pixel m mk out inp =
     (case mk of
        None \<Rightarrow> take 3 (storage m inp)
      | Some [] \<Rightarrow> out
      | Some (a # _) \<Rightarrow> map2 (blend8 a) out (take 3 (storage m inp)))"

definition paste :: "image \<Rightarrow> image \<Rightarrow> image option \<Rightarrow> image" where
  "paste bg im msk =
     bg\<lparr>pixels :=
          (case msk of
             None \<Rightarrow>
               map2 (\<lambda>orow irow. map2 (paste_pixel (mode im) None) orow irow)
                 (pixels bg) (pixels im)
           | Some mi \<Rightarrow>
               map2 (\<lambda>orow (irow, mrow).
                       map2 (\<lambda>out (inp, mk). paste_pixel (mode im) (Some mk) out inp)
                         orow (zip irow mrow))
                 (pixels bg) (zip (pixels im) (pixels mi)))\<rparr>"

text \<open>\<^verbatim>\<open>img.convert(mode)\<close>: an image of that mode and the same size.\<close>

definition convert :: "env \<Rightarrow> image \<Rightarrow> string \<Rightarrow> exn + image" where
  "convert L im m =
     (case convert_pixels L im m of
        Inl e \<Rightarrow> Inl e
      | Inr px \<Rightarrow> Inr \<lparr>mode = m, size_img = size_img im, pixels = px\<rparr>)"

text \<open>
  \<^verbatim>\<open>img.resize(size, resample, box)\<close>: an image whose size and box are the whole
  image is returned as it is; the modes \<^verbatim>\<open>'1'\<close> and \<^verbatim>\<open>'P'\<close> are always resampled
  with \<^verbatim>\<open>NEAREST\<close>; otherwise the kernel maps the box onto an image of the requested
  size and the same mode.
\<close>

definition resize :: "env \<Rightarrow> image \<Rightarrow> nat \<times> nat \<Rightarrow> resampling \<Rightarrow> box \<Rightarrow> exn + image" where
  "resize L im sz rs bx =
     (if size_img im = sz
         \<and> bx = (0, 0, of_nat (fst (size_img im)), of_nat (snd (size_img im)))
      then Inr im
      else
        (case resample L im sz
                (if mode im \<in> set [''1'', ''P''] then NEAREST else rs) bx of
           Inl e \<Rightarrow> Inl e
         | Inr px \<Rightarrow> Inr \<lparr>mode = mode im, size_img = sz, pixels = px\<rparr>))"

text \<open>
  \<^verbatim>\<open>ImageOps.fit(image, size, method)\<close> with the defaults \<^verbatim>\<open>bleed=0.0\<close> and
  \<^verbatim>\<open>centering=(0.5, 0.5)\<close>: the largest box of the output's aspect ratio, centred in
  the image, is resized to \<open>size\<close>:
  \<^verbatim>\<open>
  live_size_ratio = live_size[0] / live_size[1]
  output_ratio = size[0] / size[1]
  if live_size_ratio == output_ratio:   crop_width, crop_height = live_size
  elif live_size_ratio >= output_ratio: crop_width, crop_height = output_ratio * live_size[1], live_size[1]
  else:                                 crop_width, crop_height = live_size[0], live_size[0] / output_ratio
  crop_left = bleed_pixels[0] + (live_size[0] - crop_width) * centering[0]
  crop_top = bleed_pixels[1] + (live_size[1] - crop_height) * centering[1]
  crop = (crop_left, crop_top, crop_left + crop_width, crop_top + crop_height)
  return image.resize(size, method, box=crop)
  \<close>
  The library computes in binary floating point; for the square target of the script
  the ratios are compared with 1 and the box is made of halves of integers, which are
  exact, so the box is given as rationals. A division by zero raises.
\<close>

definition fit_box :: "nat \<times> nat \<Rightarrow> nat \<times> nat \<Rightarrow> exn + box" where
  "fit_box isz sz =
     (if snd isz = 0 \<or> snd sz = 0 then Inl (Exception ''float division by zero'')
      else
        let live_w = (of_nat (fst isz) :: rat); live_h = (of_nat (snd isz) :: rat);
            live_size_ratio = live_w / live_h;
            output_ratio = (of_nat (fst sz) :: rat) / of_nat (snd sz)
        in if live_size_ratio < output_ratio \<and> output_ratio = 0
           then Inl (Exception ''float division by zero'')
           else
             let crop_width =
                   (if live_size_ratio = output_ratio then live_w
                    else if output_ratio \<le> live_size_ratio then output_ratio * live_h
                    else live_w);
                 crop_height =
                   (if live_size_ratio = output_ratio then live_h
                    else if output_ratio \<le> live_size_ratio then live_h
                    else live_w / output_ratio);
                 crop_left = (live_w - crop_width) * (1 / 2);
                 crop_top = (live_h - crop_height) * (1 / 2)
             in Inr (crop_left, crop_top, crop_left + crop_width, crop_top + crop_height))"

definition ImageOps_fit :: "env \<Rightarrow> image \<Rightarrow> nat \<times> nat \<Rightarrow> resampling \<Rightarrow> exn + image" where
  "ImageOps_fit L im sz method =
     (case fit_box (size_img im) sz of
        Inl e \<Rightarrow> Inl e
      | Inr crop \<Rightarrow> resize L im sz method crop)"

text \<open>
  \<^verbatim>\<open>img.save(path, format, quality=q, optimize=o)\<close>. Pillow opens the target for
  writing before it encodes, which empties a file that is there already, and then
  encodes into it:
  \<^verbatim>\<open>
  created = not os.path.exists(filename)
  fp = builtins.open(filename, "w+b")
  try:
      save_handler(self, fp, filename)
  except Exception:
      fp.close()
      if created: os.remove(filename)
      raise
  \<close>
  So a save that succeeds replaces whatever file the path denotes. When the encoder
  raises an \<^verbatim>\<open>Exception\<close>, a target that did not exist is removed again and a target
  that existed is left without its previous content; when the encoder is interrupted
  nothing is cleaned up. What a failed encoder had written is taken to be nothing: the
  file is left empty. The result is the exception raised, if any, and the filesystem.
\<close>

definition save ::
  "naming \<Rightarrow> env \<Rightarrow> image \<Rightarrow> path \<Rightarrow> string \<Rightarrow> nat \<Rightarrow> bool \<Rightarrow> fs \<Rightarrow> exn option \<times> fs" where
  "save K L im p fmt quality optimize fs =
     (case map_of fs (K p) of
        Some Dir \<Rightarrow> (Some (Exception (''[Errno 21] Is a directory: '' @ quoted p)), fs)
      | _ \<Rightarrow>
          (case map_of fs (parent (K p)) of
             Some Dir \<Rightarrow>
               (case encode L im fmt quality optimize of
                  Inr b \<Rightarrow> (None, AList.update (K p) (File b) fs)
                | Inl (Exception msg) \<Rightarrow>
                    (Some (Exception msg),
                     if map_of fs (K p) = None then fs else AList.update (K p) (File []) fs)
                | Inl KeyboardInterrupt \<Rightarrow>
                    (Some KeyboardInterrupt, AList.update (K p) (File []) fs))
           | Some (File _) \<Rightarrow>
               (Some (Exception (''[Errno 20] Not a directory: '' @ quoted p)), fs)
           | None \<Rightarrow>
               (Some (Exception (''[Errno 2] No such file or directory: '' @ quoted p)), fs)))"

section \<open>The script\<close>

text \<open>
  The state of a run: the filesystem and the lines printed so far (one entry per
  \<^verbatim>\<open>print\<close> call; text outside ASCII is given in UTF-8).
\<close>

record world =
  files :: fs
  stdout :: "string list"

text \<open>
  \<^verbatim>\<open>print(s)\<close>: the text is added to the output unless printing it raises; then
  nothing is added and the exception (an \<^verbatim>\<open>Exception\<close>) is the result.
\<close>

definition print :: "env \<Rightarrow> string \<Rightarrow> world \<Rightarrow> exn + world" where
  "print L s w =
     (case print_raises L s of
        Some msg \<Rightarrow> Inl (Exception msg)
      | None \<Rightarrow> Inr (w\<lparr>stdout := stdout w @ [s]\<rparr>))"

text \<open>
  The paths of \<^verbatim>\<open>resize_images\<close>, from the script's own \<^verbatim>\<open>__file__\<close>:
  \<^verbatim>\<open>script_dir = Path(__file__).parent\<close>,
  \<^verbatim>\<open>cocktails_dir = script_dir.parent / 'assets' / 'cocktails'\<close>,
  \<^verbatim>\<open>output_dir = script_dir.parent / 'assets' / 'cocktails-resized'\<close>.
\<close>

definition script_dir :: "path \<Rightarrow> path" where
  "script_dir file = parent file"

definition cocktails_dir :: "path \<Rightarrow> path" where
  "cocktails_dir file = parent (script_dir file) @ [''assets'', ''cocktails'']"

definition output_dir :: "path \<Rightarrow> path" where
  "output_dir file = parent (script_dir file) @ [''assets'', ''cocktails-resized'']"

definition image_extensions :: "string list" where
  "image_extensions = [''.jpg'', ''.jpeg'', ''.png'', ''.webp'']"

text \<open>
  \<^verbatim>\<open>image_files = [f for f in cocktails_dir.iterdir() if f.suffix.lower() in image_extensions]\<close>
\<close>

definition image_files :: "naming \<Rightarrow> path \<Rightarrow> fs \<Rightarrow> exn + path list" where
  "image_files K file fs =
     (case iterdir K (cocktails_dir file) fs of
        Inl e \<Rightarrow> Inl e
      | Inr entries \<Rightarrow>
          Inr (filter (\<lambda>f. lower (suffix (name f)) \<in> set image_extensions) entries))"

text \<open>
  The mode normalisation of the loop body:
  \<^verbatim>\<open>
  if img.mode in ('RGBA', 'LA'):
      background = Image.new('RGB', img.size, (255, 255, 255))
      background.paste(img, mask=img.split()[-1] if img.mode == 'RGBA' else None)
      img = background
  elif img.mode != 'RGB':
      img = img.convert('RGB')
  \<close>
\<close>

definition to_rgb :: "env \<Rightarrow> image \<Rightarrow> exn + image" where
  "to_rgb L img =
     (if mode img \<in> set [''RGBA'', ''LA'']
      then
        (let background = Image_new ''RGB'' (size_img img) [255, 255, 255]
         in Inr (paste background img
                   (if mode img = ''RGBA'' then Some (last (split_img img)) else None)))
      else if mode img \<noteq> ''RGB'' then convert L img ''RGB''
      else Inr img)"

text \<open>
  The body of the \<^verbatim>\<open>try\<close> for one file: open, normalise the mode,
  \<^verbatim>\<open>ImageOps.fit(img, (400, 400), Image.Resampling.LANCZOS)\<close>, save to
  \<^verbatim>\<open>output_dir / f"{image_path.stem}.jpg"\<close> as \<^verbatim>\<open>'JPEG'\<close> with
  \<^verbatim>\<open>quality=85, optimize=True\<close>, and print the progress line. The result is the
  state after the body, or the exception that leaves the body together with the state
  at that moment: a failed save can have emptied the output file, and when the
  progress line cannot be printed the output file is already written.
\<close>

definition process_image ::
  "naming \<Rightarrow> env \<Rightarrow> path \<Rightarrow> nat \<Rightarrow> nat \<Rightarrow> path \<Rightarrow> world \<Rightarrow> exn \<times> world + world" where
  "process_image K L out_dir i len image_path w =
     (case Image_open K L (files w) image_path of
        Inl e \<Rightarrow> Inl (e, w)
      | Inr img \<Rightarrow>
     (case to_rgb L img of
        Inl e \<Rightarrow> Inl (e, w)
      | Inr img' \<Rightarrow>
     (case ImageOps_fit L img' (400, 400) LANCZOS of
        Inl e \<Rightarrow> Inl (e, w)
      | Inr img_resized \<Rightarrow>
     (case save K L img_resized (out_dir @ [stem (name image_path) @ ''.jpg''])
             ''JPEG'' 85 True (files w) of
        (Some e, fs') \<Rightarrow> Inl (e, w\<lparr>files := fs'\<rparr>)
      | (None, fs') \<Rightarrow>
     (case print L (''Resized '' @ str_nat i @ ''/'' @ str_nat len @ '': ''
                      @ name image_path)
             (w\<lparr>files := fs'\<rparr>) of
        Inl e \<Rightarrow> Inl (e, w\<lparr>files := fs'\<rparr>)
      | Inr w' \<Rightarrow> Inr w')))))"

text \<open>
  The \<^verbatim>\<open>for\<close> loop over \<^verbatim>\<open>enumerate(image_files, 1)\<close> with its handler
  \<^verbatim>\<open>except Exception as e: print(f"Error processing {image_path.name}: {e}")\<close>.
  When the handler's own \<^verbatim>\<open>print\<close> raises, that exception leaves the loop. A
  \<^verbatim>\<open>KeyboardInterrupt\<close> is not an \<^verbatim>\<open>Exception\<close> and leaves the loop as well. The
  result is the exception that leaves the loop, if any, and the state.
\<close>

fun for_loop ::
  "naming \<Rightarrow> env \<Rightarrow> path \<Rightarrow> nat \<Rightarrow> (nat \<times> path) list \<Rightarrow> world \<Rightarrow> exn option \<times> world" where
  "for_loop K L out_dir len [] w = (None, w)"
| "for_loop K L out_dir len ((i, image_path) # rest) w =
     (case process_image K L out_dir i len image_path w of
        Inr w' \<Rightarrow> for_loop K L out_dir len rest w'
      | Inl (Exception msg, w') \<Rightarrow>
          (case print L (''Error processing '' @ name image_path @ '': '' @ msg) w' of
             Inl e \<Rightarrow> (Some e, w')
           | Inr w'' \<Rightarrow> for_loop K L out_dir len rest w'')
      | Inl (KeyboardInterrupt, w') \<Rightarrow> (Some KeyboardInterrupt, w'))"

text \<open>
  The three \<^verbatim>\<open>print\<close> calls after the loop, in order; the first one that raises
  ends them.
\<close>

definition banner :: "path \<Rightarrow> string list" where
  "banner file =
     [[CHR 0x0A, CHR 0xE2, CHR 0x9C, CHR 0x85] @ '' All images resized successfully!'',
      ''Resized images saved to: '' @ str_path (output_dir file),
      ''After verifying the resized images, replace the original folder.'']"

fun print_all :: "env \<Rightarrow> string list \<Rightarrow> world \<Rightarrow> exn option \<times> world" where
  "print_all L [] w = (None, w)"
| "print_all L (s # ls) w =
     (case print L s w of
        Inl e \<Rightarrow> (Some e, w)
      | Inr w' \<Rightarrow> print_all L ls w')"

text \<open>
  \<^verbatim>\<open>resize_images()\<close>: the result is the exception that escapes it, if any, and
  the state it leaves.
\<close>

definition resize_images :: "naming \<Rightarrow> env \<Rightarrow> path \<Rightarrow> world \<Rightarrow> exn option \<times> world" where
  "resize_images K L file w =
     (case mkdir_exist_ok K (output_dir file) (files w) of
        Inl e \<Rightarrow> (Some e, w)
      | Inr fs1 \<Rightarrow>
     (case image_files K file fs1 of
        Inl e \<Rightarrow> (Some e, w\<lparr>files := fs1\<rparr>)
      | Inr fl \<Rightarrow>
     (case print L (''Found '' @ str_nat (length fl) @ '' images to resize...'')
             (w\<lparr>files := fs1\<rparr>) of
        Inl e \<Rightarrow> (Some e, w\<lparr>files := fs1\<rparr>)
      | Inr w2 \<Rightarrow>
     (case for_loop K L (output_dir file) (length fl) (zip [1 ..< Suc (length fl)] fl) w2 of
        (Some e, w3) \<Rightarrow> (Some e, w3)
      | (None, w3) \<Rightarrow> print_all L (banner file) w3))))"

text \<open>
  The \<^verbatim>\<open>__main__\<close> block: the exit code of the process and the final state.
  \<^verbatim>\<open>
  try: resize_images()
  except KeyboardInterrupt: print("\n(cross mark) Process interrupted by user"); sys.exit(1)
  except Exception as e: print(f"(cross mark) Error: {e}"); sys.exit(1)
  \<close>
  When the \<^verbatim>\<open>print\<close> of a handler raises, that exception is not caught by anything:
  the interpreter ends with exit code 1 and nothing has been added to the output.
\<close>

definition interrupted_message :: string where
  "interrupted_message =
     [CHR 0x0A, CHR 0xE2, CHR 0x9D, CHR 0x8C] @ '' Process interrupted by user''"

definition error_message :: "string \<Rightarrow> string" where
  "error_message msg = [CHR 0xE2, CHR 0x9D, CHR 0x8C] @ '' Error: '' @ msg"

definition main :: "naming \<Rightarrow> env \<Rightarrow> path \<Rightarrow> world \<Rightarrow> nat \<times> world" where
  "main K L file w =
     (case resize_images K L file w of
        (None, w') \<Rightarrow> (0, w')
      | (Some KeyboardInterrupt, w') \<Rightarrow>
          (case print L interrupted_message w' of
             Inl e \<Rightarrow> (1, w')
           | Inr w'' \<Rightarrow> (1, w''))
      | (Some (Exception msg), w') \<Rightarrow>
          (case print L (error_message msg) w' of
             Inl e \<Rightarrow> (1, w')
           | Inr w'' \<Rightarrow> (1, w'')))"

section \<open>Small environments and filesystems for running the script\<close>

text \<open>
  A stand-in for the imaging library, to run the model on concrete inputs. The first
  byte of a file selects what decoding does: an empty file cannot be identified, a
  leading 0 stands for the user interrupting while the file is read, 1, 2 and 3 give a
  one-pixel image of mode \<^verbatim>\<open>'RGB'\<close>, \<^verbatim>\<open>'RGBA'\<close> and \<^verbatim>\<open>'LA'\<close> whose pixel is
  the rest of the file, anything else a one-pixel \<^verbatim>\<open>'L'\<close> image. The kernel hands
  the pixel data on and the encoder writes it out flat. The console prints everything.
\<close>

definition test_env :: env where
  "test_env =
     \<lparr>decode = (\<lambda>b. case b of
                  [] \<Rightarrow> Inl (Exception ''cannot identify image file'')
                | m # px \<Rightarrow>
                    if m = 0 then Inl KeyboardInterrupt
                    else Inr \<lparr>mode = (if m = 1 then ''RGB'' else if m = 2 then ''RGBA''
                                      else if m = 3 then ''LA'' else ''L''),
                              size_img = (1, 1), pixels = [[px]]\<rparr>),
      convert_pixels = (\<lambda>im m. Inr (map (map (\<lambda>p. take 3 (p @ p @ p))) (pixels im))),
      resample = (\<lambda>im sz rs bx. Inr (pixels im)),
      encode = (\<lambda>im fmt q opt. Inr (concat (concat (pixels im)))),
      print_raises = (\<lambda>s. None)\<rparr>"

text \<open>The same with a console that has codes for the ASCII characters only.\<close>

definition ascii_env :: env where
  "ascii_env =
     test_env\<lparr>print_raises :=
       (\<lambda>s. if list_ex (\<lambda>c. 127 < (of_char c :: nat)) s
            then Some ''ascii codec cannot encode character''
            else None)\<rparr>"

definition test_file :: path where
  "test_file = [''repo'', ''scripts'', ''resize-cocktail-images.py'']"

definition src_dir :: path where
  "src_dir = [''repo'', ''assets'', ''cocktails'']"

definition dst_dir :: path where
  "dst_dir = [''repo'', ''assets'', ''cocktails-resized'']"

definition test_fs :: fs where
  "test_fs =
     [([''repo''], Dir),
      ([''repo'', ''assets''], Dir),
      (src_dir, Dir),
      (src_dir @ [''a.PNG''], File [2, 10, 20, 30, 0]),
      (src_dir @ [''notes.txt''], File [1, 1, 1, 1]),
      (src_dir @ [''bad.webp''], File []),
      (src_dir @ [''a.jpg''], File [1, 7, 8, 9]),
      (src_dir @ [''sub''], Dir),
      (src_dir @ [''sub'', ''deep.png''], File [1, 4, 5, 6])]"

text \<open>
  Further filesystems: a source directory without images, one whose images are all
  corrupt (with the destination directory present), one in which the user interrupts
  during the second of three images, and one without a source directory.
\<close>

definition empty_fs :: fs where
  "empty_fs =
     [([''repo''], Dir),
      ([''repo'', ''assets''], Dir),
      (src_dir, Dir),
      (src_dir @ [''README''], File [1, 2, 3])]"

definition corrupt_fs :: fs where
  "corrupt_fs =
     [([''repo''], Dir),
      ([''repo'', ''assets''], Dir),
      (src_dir, Dir),
      (dst_dir, Dir),
      (src_dir @ [''bad.webp''], File []),
      (src_dir @ [''worse.jpeg''], File [])]"

definition interrupt_fs :: fs where
  "interrupt_fs =
     [([''repo''], Dir),
      ([''repo'', ''assets''], Dir),
      (src_dir, Dir),
      (src_dir @ [''a.png''], File [1, 1, 2, 3]),
      (src_dir @ [''b.png''], File [0]),
      (src_dir @ [''c.png''], File [1, 4, 5, 6])]"

definition no_source_fs :: fs where
  "no_source_fs = [([''repo''], Dir), ([''repo'', ''assets''], Dir)]"

text \<open>
  Images whose name has a letter outside ASCII (an e with an acute accent, in UTF-8):
  a corrupt one followed by a good one, and a good one alone.
\<close>

definition accent_fs :: fs where
  "accent_fs =
     [([''repo''], Dir),
      ([''repo'', ''assets''], Dir),
      (src_dir, Dir),
      (dst_dir, Dir),
      (src_dir @ [[CHR 0xC3, CHR 0xA9] @ ''.png''], File []),
      (src_dir @ [''ok.png''], File [1, 4, 5, 6])]"

definition accent_ok_fs :: fs where
  "accent_ok_fs =
     [([''repo''], Dir),
      ([''repo'', ''assets''], Dir),
      (src_dir, Dir),
      (dst_dir, Dir),
      (src_dir @ [[CHR 0xC3, CHR 0xA9] @ ''.png''], File [1, 1, 2, 3])]"

text \<open>
  The naming of a filesystem in which the destination directory is a symbolic link to
  the source directory.
\<close>

definition link_naming :: naming where
  "link_naming p = (if take 3 p = dst_dir then src_dir @ drop 3 p else p)"

text \<open>A filesystem for that naming: the link itself holds no file.\<close>

definition link_fs :: fs where
  "link_fs =
     [([''repo''], Dir),
      ([''repo'', ''assets''], Dir),
      (src_dir, Dir),
      (src_dir @ [''a.PNG''], File [2, 10, 20, 30, 0]),
      (src_dir @ [''a.jpg''], File [1, 7, 8, 9])]"

section \<open>Paths below a directory\<close>

text \<open>\<open>under d p\<close>: the path \<open>p\<close> is the directory \<open>d\<close> or lies below it, at any depth.\<close>

definition under :: "path \<Rightarrow> path \<Rightarrow> bool" where
  "under d p = (take (length d) p = d)"

text \<open>
  Two filesystems look the same to the loop when they agree on every path that is not
  an entry of the destination directory, and on which paths are directories.
\<close>

definition same_view :: "path \<Rightarrow> fs \<Rightarrow> fs \<Rightarrow> bool" where
  "same_view out fs fs' =
     ((\<forall>p. parent p \<noteq> out \<longrightarrow> map_of fs p = map_of fs' p)
      \<and> (\<forall>p. (map_of fs p = Some Dir) = (map_of fs' p = Some Dir)))"

text \<open>
  What a run does to the file at one path, as far as its final content goes: nothing,
  a new content, or the loss of the content of a file that is there.
\<close>

datatype effect = Keep | Put node | Trunc

definition apply_effects :: "(path \<Rightarrow> effect) \<Rightarrow> (path \<rightharpoonup> node) \<Rightarrow> (path \<rightharpoonup> node)" where
  "apply_effects D m =
     (\<lambda>p. case D p of
            Keep \<Rightarrow> m p
          | Put x \<Rightarrow> Some x
          | Trunc \<Rightarrow> (case m p of None \<Rightarrow> None | Some _ \<Rightarrow> Some (File [])))"

definition then_effect :: "effect \<Rightarrow> effect \<Rightarrow> effect" where
  "then_effect e1 e2 =
     (case e2 of
        Keep \<Rightarrow> e1
      | Put x \<Rightarrow> Put x
      | Trunc \<Rightarrow> (case e1 of Keep \<Rightarrow> Trunc | Put _ \<Rightarrow> Put (File []) | Trunc \<Rightarrow> Trunc))"

section \<open>The geometry of a scale-then-crop fit, in the words of the specification\<close>

text \<open>
  The specification describes the resize step as: scale the image by
  \<open>400 / min(width, height)\<close>, then cut the 400 by 400 window out of the centre of the
  scaled image. \<open>scale_then_crop_source\<close> is the point of the source image that this
  description puts at the point \<open>(x, y)\<close> of the output. \<open>box_source\<close> is the point
  of the source image that a resize of a box puts there: the box is mapped linearly
  onto the output.
\<close>

definition scale_then_crop_source :: "nat \<times> nat \<Rightarrow> rat \<times> rat \<Rightarrow> rat \<times> rat" where
  "scale_then_crop_source isz pt =
     (let f = 400 / of_nat (min (fst isz) (snd isz));
          off_x = (f * of_nat (fst isz) - 400) / 2;
          off_y = (f * of_nat (snd isz) - 400) / 2
      in ((fst pt + off_x) / f, (snd pt + off_y) / f))"

definition box_source :: "box \<Rightarrow> nat \<times> nat \<Rightarrow> rat \<times> rat \<Rightarrow> rat \<times> rat" where
  "box_source bx sz pt =
     (case bx of (l, t, r, b) \<Rightarrow>
        (l + fst pt * (r - l) / of_nat (fst sz), t + snd pt * (b - t) / of_nat (snd sz)))"

section \<open>Lemmas about the library calls\<close>

lemma to_rgb_mode:
  "to_rgb L img = Inr img' \<Longrightarrow> mode img' = ''RGB'' \<and> size_img img' = size_img img"
  by (auto simp: to_rgb_def paste_def Image_new_def convert_def Let_def
           split: if_splits sum.splits)

lemma resize_result:
  "resize L im sz rs bx = Inr r \<Longrightarrow> size_img r = sz \<and> mode r = mode im"
  by (auto simp: resize_def split: if_splits sum.splits)

lemma fit_result:
  "ImageOps_fit L im sz rs = Inr r \<Longrightarrow> size_img r = sz \<and> mode r = mode im"
  by (auto simp: ImageOps_fit_def dest: resize_result split: sum.splits)

lemma save_result:
  "save K L im p fmt q opt fs = (None, fs') \<Longrightarrow>
     \<exists>b. encode L im fmt q opt = Inr b \<and> fs' = AList.update (K p) (File b) fs"
  by (auto simp: save_def split: option.splits node.splits sum.splits exn.splits)

lemma print_result:
  "print L s w = Inr w' \<Longrightarrow> print_raises L s = None \<and> w' = w\<lparr>stdout := stdout w @ [s]\<rparr>"
  by (auto simp: print_def split: option.splits)

lemma print_raised:
  "print L s w = Inl e \<Longrightarrow> \<exists>m. print_raises L s = Some m \<and> e = Exception m"
  by (auto simp: print_def split: option.splits)

lemma print_ok:
  "print_raises L s = None \<Longrightarrow> print L s w = Inr (w\<lparr>stdout := stdout w @ [s]\<rparr>)"
  by (simp add: print_def)

lemma print_fails:
  "print_raises L s = Some m \<Longrightarrow> print L s w = Inl (Exception m)"
  by (simp add: print_def)

lemma process_image_success:
  assumes "process_image K L out i n p w = Inr w'"
  shows "\<exists>img b. mode img = ''RGB'' \<and> size_img img = (400, 400)
           \<and> encode L img ''JPEG'' 85 True = Inr b
           \<and> files w' = AList.update (K (out @ [stem (name p) @ ''.jpg''])) (File b) (files w)
           \<and> stdout w' =
               stdout w @ [''Resized '' @ str_nat i @ ''/'' @ str_nat n @ '': '' @ name p]"
  using assms
  by (auto simp: process_image_def split: sum.splits prod.splits option.splits
           dest!: save_result to_rgb_mode fit_result print_result)

lemma stem_suffix: "stem n @ suffix n = n"
  by (simp add: stem_def suffix_def Let_def)

text \<open>Unfolding the model on concrete inputs.\<close>

lemma test_paths: "cocktails_dir test_file = src_dir" "output_dir test_file = dst_dir"
  by (simp_all add: cocktails_dir_def output_dir_def script_dir_def parent_def
        test_file_def src_dir_def dst_dir_def)

lemmas run_defs =
  process_image_def Image_open_def test_fs_def src_dir_def dst_dir_def test_env_def
  empty_fs_def corrupt_fs_def interrupt_fs_def no_source_fs_def
  to_rgb_def Image_new_def paste_def paste_pixel_def split_img_def getbands_def
  ImageOps_fit_def fit_box_def resize_def save_def name_def stem_def parent_def print_def
  blend8_def div255_def Let_def str_nat.simps convert_def upt_rec quoted_def

section \<open>The output files\<close>

text \<open>
  Claim C2. Whenever the body of the loop succeeds for an input, the file it has
  written is the \<^verbatim>\<open>'JPEG'\<close> encoding (quality 85, optimised) of an image of mode
  \<^verbatim>\<open>'RGB'\<close> and size 400 by 400, and it is the file that the destination directory
  joined with the input's stem followed by \<^verbatim>\<open>.jpg\<close> denotes, where the input's
  name is its stem followed by its suffix, whatever that suffix is. This holds under
  every naming; on a filesystem without links and with case-sensitive names the file
  sits at that very path.
\<close>

theorem output_rgb_jpeg_400:
  assumes "process_image K L out_dir i n image_path w = Inr w'"
  shows "(\<exists>img b. mode img = ''RGB'' \<and> size_img img = (400, 400)
           \<and> encode L img ''JPEG'' 85 True = Inr b
           \<and> map_of (files w') (K (out_dir @ [stem (name image_path) @ ''.jpg'']))
               = Some (File b))
         \<and> stem (name image_path) @ suffix (name image_path) = name image_path"
proof -
  from process_image_success [OF assms] obtain img b where
    h: "mode img = ''RGB''" "size_img img = (400, 400)"
       "encode L img ''JPEG'' 85 True = Inr b"
       "files w' =
          AList.update (K (out_dir @ [stem (name image_path) @ ''.jpg''])) (File b) (files w)"
    by blast
  from h(4)
  have "map_of (files w') (K (out_dir @ [stem (name image_path) @ ''.jpg''])) = Some (File b)"
    by (simp add: update_conv')
  with h show ?thesis by (auto simp: stem_suffix)
qed

theorem output_rgb_jpeg_400_witness:
  "process_image id test_env dst_dir 1 3 (src_dir @ [''a.PNG''])
      \<lparr>files = test_fs @ [(dst_dir, Dir)], stdout = []\<rparr>
    = Inr \<lparr>files = test_fs @ [(dst_dir, Dir), (dst_dir @ [''a.jpg''], File [255, 255, 255])],
           stdout = [''Resized 1/3: a.PNG'']\<rparr>
   \<and> ((\<exists>img b. mode img = ''RGB'' \<and> size_img img = (400, 400)
           \<and> encode test_env img ''JPEG'' 85 True = Inr b
           \<and> map_of (files \<lparr>files = test_fs @ [(dst_dir, Dir),
                                  (dst_dir @ [''a.jpg''], File [255, 255, 255])],
                               stdout = [''Resized 1/3: a.PNG'']\<rparr>)
                 (id (dst_dir @ [stem (name (src_dir @ [''a.PNG''])) @ ''.jpg'']))
               = Some (File b))
        \<and> stem (name (src_dir @ [''a.PNG''])) @ suffix (name (src_dir @ [''a.PNG'']))
            = name (src_dir @ [''a.PNG'']))"
proof -
  have h: "process_image id test_env dst_dir 1 3 (src_dir @ [''a.PNG''])
      \<lparr>files = test_fs @ [(dst_dir, Dir)], stdout = []\<rparr>
    = Inr \<lparr>files = test_fs @ [(dst_dir, Dir), (dst_dir @ [''a.jpg''], File [255, 255, 255])],
           stdout = [''Resized 1/3: a.PNG'']\<rparr>"
    by (simp add: run_defs)
  show ?thesis
    using h output_rgb_jpeg_400 [OF h] by (rule conjI)
qed

section \<open>The resize step\<close>

lemma fit_box_400:
  assumes "0 < w" "0 < h"
  shows "fit_box (w, h) (400, 400) =
           Inr ((of_nat w - of_nat (min w h)) / 2, (of_nat h - of_nat (min w h)) / 2,
                (of_nat w - of_nat (min w h)) / 2 + of_nat (min w h),
                (of_nat h - of_nat (min w h)) / 2 + of_nat (min w h))"
proof (cases "h \<le> w")
  case True
  with assms show ?thesis
    by (auto simp: fit_box_def Let_def min_def field_simps)
next
  case False
  with assms show ?thesis
    by (auto simp: fit_box_def Let_def min_def field_simps)
qed

lemma box_source_fit:
  assumes "0 < w" "0 < h"
  shows "box_source ((of_nat w - of_nat (min w h)) / 2, (of_nat h - of_nat (min w h)) / 2,
                (of_nat w - of_nat (min w h)) / 2 + of_nat (min w h),
                (of_nat h - of_nat (min w h)) / 2 + of_nat (min w h)) (400, 400) (x, y)
         = scale_then_crop_source (w, h) (x, y)"
proof -
  have "(of_nat (min w h) :: rat) > 0" using assms by simp
  then show ?thesis
    by (simp add: box_source_def scale_then_crop_source_def Let_def field_simps)
qed

lemma resize_rgb:
  "mode im = ''RGB'' \<Longrightarrow> size_img im \<noteq> sz \<Longrightarrow>
   resize L im sz rs bx =
     (case resample L im sz rs bx of
        Inl e \<Rightarrow> Inl e
      | Inr px \<Rightarrow> Inr \<lparr>mode = ''RGB'', size_img = sz, pixels = px\<rparr>)"
  by (auto simp: resize_def split: sum.splits)

lemma resize_whole:
  "size_img im = sz \<Longrightarrow> bx = (0, 0, of_nat (fst sz), of_nat (snd sz)) \<Longrightarrow>
   resize L im sz rs bx = Inr im"
  by (simp add: resize_def)

text \<open>
  Claim C3. The resize step is \<^verbatim>\<open>ImageOps.fit(img, (400, 400), LANCZOS)\<close> on the
  image that the mode normalisation returned, an \<^verbatim>\<open>'RGB'\<close> image, so the filter is
  not replaced. For an image of positive width and height the box that is resized is a
  square whose side is the shorter dimension, so both axes are scaled by
  \<open>400 / min(width, height)\<close>; the box is centred (what is cut off on the left equals
  what is cut off on the right, and likewise top and bottom) and the shorter dimension
  is kept whole. Every point of the output comes from the point of the source that
  scaling by that factor and cutting the centred 400 by 400 window gives. An image
  that is 400 by 400 already is passed through.
\<close>

theorem fit_is_centre_crop:
  assumes "to_rgb L img0 = Inr img" and "size_img img = (w, h)" and "0 < w" and "0 < h"
  shows "\<exists>l t r b.
           fit_box (w, h) (400, 400) = Inr (l, t, r, b)
         \<and> ImageOps_fit L img (400, 400) LANCZOS =
             (if (w, h) = (400, 400) then Inr img
              else case resample L img (400, 400) LANCZOS (l, t, r, b) of
                     Inl e \<Rightarrow> Inl e
                   | Inr px \<Rightarrow> Inr \<lparr>mode = ''RGB'', size_img = (400, 400), pixels = px\<rparr>)
         \<and> 400 / (r - l) = 400 / of_nat (min w h)
         \<and> 400 / (b - t) = 400 / of_nat (min w h)
         \<and> l = of_nat w - r \<and> t = of_nat h - b
         \<and> 0 \<le> l \<and> 0 \<le> t \<and> (l = 0 \<or> t = 0)
         \<and> (\<forall>x y. box_source (l, t, r, b) (400, 400) (x, y)
                    = scale_then_crop_source (w, h) (x, y))"
proof -
  let ?m = "of_nat (min w h) :: rat"
  let ?l = "(of_nat w - ?m) / 2" and ?t = "(of_nat h - ?m) / 2"
  have md: "mode img = ''RGB''" using to_rgb_mode assms(1) by blast
  have fb: "fit_box (w, h) (400, 400) = Inr (?l, ?t, ?l + ?m, ?t + ?m)"
    by (rule fit_box_400 [OF assms(3,4)])
  have full: "(?l, ?t, ?l + ?m, ?t + ?m) = (0, 0, of_nat w, of_nat h)" if "(w, h) = (400, 400)"
    using that by simp
  have notfull: "(w, h) \<noteq> (400, 400) \<Longrightarrow> size_img img \<noteq> (400, 400)"
    using assms(2) by simp
  have fb': "fit_box (size_img img) (400, 400) = Inr (?l, ?t, ?l + ?m, ?t + ?m)"
    using fb assms(2) by simp
  have fit0: "ImageOps_fit L img (400, 400) LANCZOS
                = resize L img (400, 400) LANCZOS (?l, ?t, ?l + ?m, ?t + ?m)"
    by (simp only: ImageOps_fit_def fb' sum.case)
  have fit: "ImageOps_fit L img (400, 400) LANCZOS =
             (if (w, h) = (400, 400) then Inr img
              else case resample L img (400, 400) LANCZOS (?l, ?t, ?l + ?m, ?t + ?m) of
                     Inl e \<Rightarrow> Inl e
                   | Inr px \<Rightarrow> Inr \<lparr>mode = ''RGB'', size_img = (400, 400), pixels = px\<rparr>)"
  proof (cases "(w, h) = (400, 400)")
    case True
    then have r: "resize L img (400, 400) LANCZOS (?l, ?t, ?l + ?m, ?t + ?m) = Inr img"
      using assms(2) by (intro resize_whole) simp_all
    show ?thesis
      by (simp only: fit0 r if_P [OF True])
  next
    case False
    then have ne: "size_img img \<noteq> (400, 400)" using assms(2) by simp
    show ?thesis
      by (simp only: fit0 resize_rgb [OF md ne] if_not_P [OF False])
  qed
  have geo: "400 / ((?l + ?m) - ?l) = 400 / ?m" "400 / ((?t + ?m) - ?t) = 400 / ?m"
    "?l = of_nat w - (?l + ?m)" "?t = of_nat h - (?t + ?m)" "0 \<le> ?l" "0 \<le> ?t" "?l = 0 \<or> ?t = 0"
    by (simp_all add: min_def field_simps)
  have src: "\<forall>x y. box_source (?l, ?t, ?l + ?m, ?t + ?m) (400, 400) (x, y)
                    = scale_then_crop_source (w, h) (x, y)"
    using box_source_fit [OF assms(3,4)] by blast
  show ?thesis
    apply (rule exI [of _ ?l], rule exI [of _ ?t], rule exI [of _ "?l + ?m"], rule exI [of _ "?t + ?m"])
    using fb fit geo src by (intro conjI) assumption+
qed



theorem fit_is_centre_crop_witness:
  "to_rgb test_env \<lparr>mode = ''RGB'', size_img = (3, 1), pixels = [[[1, 2, 3], [4, 5, 6], [7, 8, 9]]]\<rparr>
     = Inr \<lparr>mode = ''RGB'', size_img = (3, 1), pixels = [[[1, 2, 3], [4, 5, 6], [7, 8, 9]]]\<rparr>
   \<and> size_img \<lparr>mode = ''RGB'', size_img = (3, 1), pixels = [[[1, 2, 3], [4, 5, 6], [7, 8, 9]]]\<rparr>
       = (3, 1)
   \<and> (0 :: nat) < 3 \<and> (0 :: nat) < 1
   \<and> (\<exists>l t r b.
           fit_box (3, 1) (400, 400) = Inr (l, t, r, b)
         \<and> ImageOps_fit test_env
               \<lparr>mode = ''RGB'', size_img = (3, 1), pixels = [[[1, 2, 3], [4, 5, 6], [7, 8, 9]]]\<rparr>
               (400, 400) LANCZOS =
             (if (3 :: nat, 1 :: nat) = (400, 400)
              then Inr \<lparr>mode = ''RGB'', size_img = (3, 1),
                        pixels = [[[1, 2, 3], [4, 5, 6], [7, 8, 9]]]\<rparr>
              else case resample test_env
                          \<lparr>mode = ''RGB'', size_img = (3, 1),
                            pixels = [[[1, 2, 3], [4, 5, 6], [7, 8, 9]]]\<rparr>
                          (400, 400) LANCZOS (l, t, r, b) of
                     Inl e \<Rightarrow> Inl e
                   | Inr px \<Rightarrow> Inr \<lparr>mode = ''RGB'', size_img = (400, 400), pixels = px\<rparr>)
         \<and> 400 / (r - l) = 400 / of_nat (min 3 1)
         \<and> 400 / (b - t) = 400 / of_nat (min 3 1)
         \<and> l = of_nat 3 - r \<and> t = of_nat 1 - b
         \<and> 0 \<le> l \<and> 0 \<le> t \<and> (l = 0 \<or> t = 0)
         \<and> (\<forall>x y. box_source (l, t, r, b) (400, 400) (x, y)
                    = scale_then_crop_source (3, 1) (x, y)))"
proof -
  let ?im = "\<lparr>mode = ''RGB'', size_img = (3, 1), pixels = [[[1, 2, 3], [4, 5, 6], [7, 8, 9 :: 8 word]]]\<rparr>"
  have h1: "to_rgb test_env ?im = Inr ?im" by (simp add: to_rgb_def)
  have h2: "size_img ?im = (3, 1)" by simp
  have h3: "(0 :: nat) < 3" and h4: "(0 :: nat) < 1" by simp_all
  show ?thesis
    using h1 h2 h3 h4 fit_is_centre_crop [OF h1 h2 h3 h4]
    by (intro conjI) assumption+
qed


section \<open>The mode normalisation\<close>

lemma blend8_transparent: "blend8 0 255 x = 255"
  by (simp add: blend8_def div255_def)

lemma alpha_band:
  "mode img = ''RGBA'' \<Longrightarrow>
   pixels (last (split_img img)) = map (map (\<lambda>p. take 1 (drop 3 p))) (pixels img)"
  by (simp add: split_img_def getbands_def last_map)

text \<open>
  For \<^verbatim>\<open>'RGBA'\<close> the alpha band is the mask: a fully transparent pixel of a
  well-formed image leaves the white of the canvas.
\<close>

lemma rgba_transparent_becomes_white:
  assumes "mode img = ''RGBA''"
    and "length (pixels img) = snd (size_img img)"
    and "y < length (pixels img)"
    and "length (pixels img ! y) = fst (size_img img)"
    and "x < length (pixels img ! y)"
    and "pixels img ! y ! x = [r, g, b, 0]"
  shows "\<exists>out. to_rgb L img = Inr out \<and> pixels out ! y ! x = [255, 255, 255]"
  using assms
  by (simp add: to_rgb_def Image_new_def paste_def alpha_band paste_pixel_def
        blend8_transparent)

text \<open>
  Claim C1. The claim holds for \<^verbatim>\<open>'RGBA'\<close> but not for \<^verbatim>\<open>'LA'\<close>: the script
  pastes an \<^verbatim>\<open>'LA'\<close> image with \<^verbatim>\<open>mask=None\<close>, so the white canvas is
  overwritten by the grey values and the alpha channel is dropped. A one-pixel
  \<^verbatim>\<open>'LA'\<close> image whose pixel is black and fully transparent comes out black, whatever
  the library's codecs are.
\<close>

theorem la_transparent_pixel_not_white:
  "to_rgb L \<lparr>mode = ''LA'', size_img = (1, 1), pixels = [[[0, 0]]]\<rparr>
     = Inr \<lparr>mode = ''RGB'', size_img = (1, 1), pixels = [[[0, 0, 0]]]\<rparr>"
  by (simp add: to_rgb_def Image_new_def paste_def paste_pixel_def)


section \<open>The loop and the exit code\<close>

lemma process_image_failure_stdout:
  "process_image K L out i n p w = Inl (e, w') \<Longrightarrow> stdout w' = stdout w"
  by (auto simp: process_image_def split: sum.splits prod.splits option.splits)






lemma main_exit_code:
  "fst (main K L file w) = (case fst (resize_images K L file w) of None \<Rightarrow> 0 | Some e \<Rightarrow> 1)"
  by (simp add: main_def split: prod.splits option.splits exn.splits sum.splits)

lemma main_files: "files (snd (main K L file w)) = files (snd (resize_images K L file w))"
  by (auto simp: main_def print_def split: prod.splits option.splits exn.splits sum.splits)

lemma resize_images_result:
  assumes "mkdir_exist_ok K (output_dir file) (files w) = Inr fs1"
    and "image_files K file fs1 = Inr fl"
    and "print_raises L (''Found '' @ str_nat (length fl) @ '' images to resize...'') = None"
    and "fst (for_loop K L (output_dir file) (length fl) (zip [1 ..< Suc (length fl)] fl)
           (w\<lparr>files := fs1,
              stdout := stdout w @ [''Found '' @ str_nat (length fl) @ '' images to resize...'']\<rparr>))
         = Some e"
  shows "fst (resize_images K L file w) = Some e"
proof -
  obtain r w3 where
    l: "for_loop K L (output_dir file) (length fl) (zip [1 ..< Suc (length fl)] fl)
           (w\<lparr>files := fs1,
              stdout := stdout w @ [''Found '' @ str_nat (length fl) @ '' images to resize...'']\<rparr>)
         = (r, w3)"
    by (cases "for_loop K L (output_dir file) (length fl) (zip [1 ..< Suc (length fl)] fl)
           (w\<lparr>files := fs1,
              stdout := stdout w @ [''Found '' @ str_nat (length fl) @ '' images to resize...'']\<rparr>)")
  with assms(4) have "r = Some e" by simp
  with l assms(1-3) show ?thesis
    by (simp add: resize_images_def print_def del: upt_Suc)
qed

lemma resize_images_banner:
  assumes "mkdir_exist_ok K (output_dir file) (files w) = Inr fs1"
    and "image_files K file fs1 = Inr fl"
    and "print_raises L (''Found '' @ str_nat (length fl) @ '' images to resize...'') = None"
    and "for_loop K L (output_dir file) (length fl) (zip [1 ..< Suc (length fl)] fl)
           (w\<lparr>files := fs1,
              stdout := stdout w @ [''Found '' @ str_nat (length fl) @ '' images to resize...'']\<rparr>)
         = (None, w3)"
  shows "resize_images K L file w = print_all L (banner file) w3"
  using assms by (simp add: resize_images_def print_def del: upt_Suc)

lemma print_all_ok:
  "list_all (\<lambda>s. print_raises L s = None) ls \<Longrightarrow>
   print_all L ls w = (None, w\<lparr>stdout := stdout w @ ls\<rparr>)"
  by (induction ls arbitrary: w) (simp_all add: print_def)

lemma print_all_None:
  "print_all L ls w = (None, w') \<Longrightarrow>
   list_all (\<lambda>s. print_raises L s = None) ls \<and> w' = w\<lparr>stdout := stdout w @ ls\<rparr>"
proof (induction ls arbitrary: w)
  case Nil
  then show ?case by simp
next
  case (Cons a ls)
  show ?case
  proof (cases "print_raises L a")
    case None
    with Cons.prems have "print_all L ls (w\<lparr>stdout := stdout w @ [a]\<rparr>) = (None, w')"
      by (simp add: print_def)
    from Cons.IH [OF this] None show ?thesis by simp
  next
    case (Some m)
    with Cons.prems show ?thesis by (simp add: print_def)
  qed
qed

lemma print_all_files: "files (snd (print_all L ls w)) = files w"
proof (induction ls arbitrary: w)
  case Nil
  show ?case by simp
next
  case (Cons a ls)
  show ?case
  proof (cases "print_raises L a")
    case None
    with Cons.IH [of "w\<lparr>stdout := stdout w @ [a]\<rparr>"] show ?thesis by (simp add: print_def)
  next
    case (Some m)
    then show ?thesis by (simp add: print_def)
  qed
qed


lemmas main_defs =
  run_defs main_def resize_images_def mkdir_exist_ok_def image_files_def iterdir_def
  test_paths suffix_def lower_def lower_char_def image_extensions_def banner_def
  str_path_def interrupted_message_def error_message_def ascii_env_def accent_fs_def
  accent_ok_fs_def

lemma dirs_differ: "output_dir file \<noteq> cocktails_dir file"
  by (simp add: output_dir_def cocktails_dir_def)

lemma mkdir_other:
  "mkdir_exist_ok K d fs = Inr fs1 \<Longrightarrow> p \<noteq> K d \<Longrightarrow> map_of fs1 p = map_of fs p"
  by (auto simp: mkdir_exist_ok_def map_add_def split: option.splits node.splits)







lemma print_all_fst:
  "(fst (print_all L ls w) = None) = list_all (\<lambda>s. print_raises L s = None) ls"
proof
  assume "fst (print_all L ls w) = None"
  then obtain w' where "print_all L ls w = (None, w')"
    by (cases "print_all L ls w") simp
  from print_all_None [OF this] show "list_all (\<lambda>s. print_raises L s = None) ls" by blast
next
  assume "list_all (\<lambda>s. print_raises L s = None) ls"
  from print_all_ok [OF this, of w] show "fst (print_all L ls w) = None" by simp
qed









section \<open>The enumeration of the inputs\<close>

lemma rfind_absent: "c \<notin> set xs \<Longrightarrow> rfind c xs = -1"
  by (induction xs) (auto simp: Let_def)

lemma rfind_last: "c \<notin> set t \<Longrightarrow> rfind c (s @ c # t) = int (length s)"
  by (induction s) (auto simp: Let_def rfind_absent)

lemma lower_char_dot: "lower_char c = CHR ''.'' \<longleftrightarrow> c = CHR ''.''"
  by (simp add: lower_char_def)

lemma lower_extension:
  assumes "lower e \<in> set image_extensions"
  shows "\<exists>t. e = CHR ''.'' # t \<and> CHR ''.'' \<notin> set t \<and> t \<noteq> []"
proof -
  from assms obtain c t where e: "e = c # t"
    by (cases e) (auto simp: lower_def image_extensions_def)
  from assms e have c: "lower_char c = CHR ''.''"
    by (auto simp: lower_def image_extensions_def)
  from assms e have t: "map lower_char t \<in> {''jpg'', ''jpeg'', ''png'', ''webp''}"
    by (auto simp: lower_def image_extensions_def)
  then have "CHR ''.'' \<notin> set (map lower_char t)" by auto
  then have "CHR ''.'' \<notin> set t"
    using lower_char_dot by (metis image_eqI list.set_map)
  moreover from t have "t \<noteq> []" by auto
  ultimately show ?thesis using e c by (simp add: lower_char_dot)
qed

lemma suffix_append:
  assumes "s \<noteq> []" "CHR ''.'' \<notin> set t" "t \<noteq> []"
  shows "suffix (s @ CHR ''.'' # t) = CHR ''.'' # t"
proof -
  from assms have "0 < length s" "0 < length t" by simp_all
  then show ?thesis
    using assms(2) by (simp add: suffix_def rfind_last Let_def)
qed

lemma stem_nonempty: "suffix n \<noteq> [] \<Longrightarrow> stem n \<noteq> []"
  by (auto simp: suffix_def stem_def Let_def split: if_splits)

lemma extension_test:
  "lower (suffix n) \<in> set image_extensions \<longleftrightarrow>
     (\<exists>s e. n = s @ e \<and> s \<noteq> [] \<and> lower e \<in> set image_extensions)"
proof
  assume a: "lower (suffix n) \<in> set image_extensions"
  then have "suffix n \<noteq> []" by (auto simp: lower_def image_extensions_def)
  then have "stem n \<noteq> []" by (rule stem_nonempty)
  with a stem_suffix [of n] show "\<exists>s e. n = s @ e \<and> s \<noteq> [] \<and> lower e \<in> set image_extensions"
    by metis
next
  assume "\<exists>s e. n = s @ e \<and> s \<noteq> [] \<and> lower e \<in> set image_extensions"
  then obtain s e where n: "n = s @ e" "s \<noteq> []" and e: "lower e \<in> set image_extensions"
    by blast
  from lower_extension [OF e] obtain t where
    t: "e = CHR ''.'' # t" "CHR ''.'' \<notin> set t" "t \<noteq> []" by blast
  with n have "suffix n = e" by (simp add: suffix_append)
  with e show "lower (suffix n) \<in> set image_extensions" by simp
qed

lemma name_last: "q \<noteq> [] \<Longrightarrow> name q = last q"
  by (cases q rule: rev_cases) (simp_all add: name_def)

lemma iterdir_id:
  assumes "iterdir id d fs = Inr es"
  shows "es = filter (\<lambda>p. p \<noteq> [] \<and> parent p = d) (map fst fs)"
proof -
  have "map (\<lambda>q. d @ [name q]) (filter (\<lambda>p. p \<noteq> [] \<and> parent p = d) (map fst fs))
      = filter (\<lambda>p. p \<noteq> [] \<and> parent p = d) (map fst fs)"
    by (rule map_idI) (auto simp: name_last parent_def)
  with assms show ?thesis
    by (auto simp: iterdir_def split: option.splits node.splits)
qed

lemma cocktails_dir_nonempty: "cocktails_dir file \<noteq> []"
  by (simp add: cocktails_dir_def)

lemma enumerate_all: "map snd (zip [1 ..< Suc (length fl)] fl) = fl"
  by (rule map_snd_zip) (simp del: upt_Suc)

text \<open>
  Claim C6. On a filesystem without links and with case-sensitive names, the files
  that the loop is given are exactly the entries of the
  filesystem that sit directly in the source directory (their parent is the source
  directory, so nothing deeper is seen) and whose name is a non-empty stem followed by
  an extension that is, after lowering its case, one of \<^verbatim>\<open>.jpg\<close>, \<^verbatim>\<open>.jpeg\<close>,
  \<^verbatim>\<open>.png\<close>, \<^verbatim>\<open>.webp\<close>; the loop enumerates all of them.
\<close>

theorem image_files_exactly_the_images:
  assumes "image_files id file fs = Inr fl"
  shows "set fl = {p \<in> fst ` set fs. parent p = cocktails_dir file \<and>
                    (\<exists>s e. name p = s @ e \<and> s \<noteq> [] \<and>
                       lower e \<in> {''.jpg'', ''.jpeg'', ''.png'', ''.webp''})}
         \<and> map snd (zip [1 ..< Suc (length fl)] fl) = fl"
proof -
  from assms obtain es where es: "iterdir id (cocktails_dir file) fs = Inr es"
    and fes: "fl = filter (\<lambda>f. lower (suffix (name f)) \<in> set image_extensions) es"
    by (auto simp: image_files_def split: sum.splits)
  from fes iterdir_id [OF es] have fl:
    "fl = filter (\<lambda>f. lower (suffix (name f)) \<in> set image_extensions)
            (filter (\<lambda>p. p \<noteq> [] \<and> parent p = cocktails_dir file) (map fst fs))"
    by simp
  have ne: "parent p = cocktails_dir file \<Longrightarrow> p \<noteq> []" for p
    using cocktails_dir_nonempty [of "file"] by (auto simp: parent_def)
  have ext: "set image_extensions = {''.jpg'', ''.jpeg'', ''.png'', ''.webp''}"
    by (simp add: image_extensions_def)
  have "set fl = {p \<in> fst ` set fs. parent p = cocktails_dir file \<and>
                    lower (suffix (name p)) \<in> set image_extensions}"
    using ne by (auto simp: fl)
  moreover have "lower (suffix n) \<in> {''.jpg'', ''.jpeg'', ''.png'', ''.webp''} \<longleftrightarrow>
     (\<exists>s e. n = s @ e \<and> s \<noteq> [] \<and> lower e \<in> {''.jpg'', ''.jpeg'', ''.png'', ''.webp''})" for n
    using extension_test [of n] unfolding ext .
  ultimately show ?thesis
    by (simp only: ext enumerate_all simp_thms)
qed

theorem image_files_exactly_the_images_witness:
  "image_files id test_file test_fs
     = Inr [src_dir @ [''a.PNG''], src_dir @ [''bad.webp''], src_dir @ [''a.jpg'']]
   \<and> (set [src_dir @ [''a.PNG''], src_dir @ [''bad.webp''], src_dir @ [''a.jpg'']]
        = {p \<in> fst ` set test_fs. parent p = cocktails_dir test_file \<and>
                    (\<exists>s e. name p = s @ e \<and> s \<noteq> [] \<and>
                       lower e \<in> {''.jpg'', ''.jpeg'', ''.png'', ''.webp''})}
      \<and> map snd (zip [1 ..< Suc (length [src_dir @ [''a.PNG''], src_dir @ [''bad.webp''],
                                            src_dir @ [''a.jpg'']])]
                    [src_dir @ [''a.PNG''], src_dir @ [''bad.webp''], src_dir @ [''a.jpg'']])
          = [src_dir @ [''a.PNG''], src_dir @ [''bad.webp''], src_dir @ [''a.jpg'']])"
proof -
  have h: "image_files id test_file test_fs
     = Inr [src_dir @ [''a.PNG''], src_dir @ [''bad.webp''], src_dir @ [''a.jpg'']]"
    by (simp add: main_defs)
  show ?thesis
    using h image_files_exactly_the_images [OF h] by (rule conjI)
qed

section \<open>What a run writes\<close>

lemma files_print: "print L s w = Inr w' \<Longrightarrow> files w' = files w"
  by (auto simp: print_def split: option.splits)

lemma output_dir_nonempty: "output_dir file \<noteq> []"
  by (simp add: output_dir_def)

lemma parent_child: "parent (d @ [c]) = d"
  by (simp add: parent_def)

lemma parent_not_self: "d \<noteq> [] \<Longrightarrow> parent d \<noteq> d"
  by (metis parent_def append_butlast_last_id append_self_conv list.distinct(1))

lemma not_under_parent: "d \<noteq> [] \<Longrightarrow> \<not> under d p \<Longrightarrow> parent p \<noteq> d"
proof
  assume d: "d \<noteq> []" and nu: "\<not> under d p" and pd: "parent p = d"
  from d pd have "p \<noteq> []" by (auto simp: parent_def)
  then have "p = d @ [last p]" using pd by (auto simp: parent_def)
  then have "under d p" by (metis under_def append_eq_conv_conj)
  with nu show False by simp
qed

lemma source_not_under_output:
  "under (cocktails_dir file) p \<Longrightarrow> \<not> under (output_dir file) p"
  by (auto simp: under_def cocktails_dir_def output_dir_def)

lemma save_frame:
  "save K L im p fmt qu opt fs = (r, fs') \<Longrightarrow> q \<noteq> K p \<Longrightarrow> map_of fs' q = map_of fs q"
  by (auto simp: save_def update_conv' split: option.splits node.splits sum.splits exn.splits
                 if_splits)

lemma process_image_frame:
  assumes "q \<noteq> K (out @ [stem (name p) @ ''.jpg''])"
  shows "process_image K L out i n p w = Inr w' \<Longrightarrow> map_of (files w') q = map_of (files w) q"
    and "process_image K L out i n p w = Inl (e, w') \<Longrightarrow> map_of (files w') q = map_of (files w) q"
  using assms
  by (auto simp: process_image_def print_def
           split: sum.splits prod.splits option.splits dest: save_frame)

lemma for_loop_frame:
  "\<forall>x. q \<noteq> K (out @ [x]) \<Longrightarrow>
   map_of (files (snd (for_loop K L out n items w))) q = map_of (files w) q"
proof (induction items arbitrary: w)
  case Nil
  show ?case by simp
next
  case (Cons a items)
  obtain i p where a: "a = (i, p)" by (cases a)
  from Cons.prems have q: "q \<noteq> K (out @ [stem (name p) @ ''.jpg''])" by blast
  show ?case
  proof (cases "process_image K L out i n p w")
    case (Inr w')
    from process_image_frame(1) [where K = K and out = out and p = p and q = q, OF q Inr]
    have "map_of (files w') q = map_of (files w) q" .
    with Cons Inr a show ?thesis by simp
  next
    case (Inl ew)
    obtain e w' where ew: "ew = (e, w')" by (cases ew)
    from Inl ew have "process_image K L out i n p w = Inl (e, w')" by simp
    from process_image_frame(2) [where K = K and out = out and p = p and q = q, OF q this]
    have f: "map_of (files w') q = map_of (files w) q" .
    show ?thesis
    proof (cases e)
      case KeyboardInterrupt
      with Inl ew a f show ?thesis by simp
    next
      case (Exception msg)
      show ?thesis
      proof (cases "print_raises L (''Error processing '' @ name p @ '': '' @ msg)")
        case (Some m)
        with Exception Inl ew a f show ?thesis by (simp add: print_def)
      next
        case None
        with Exception Inl ew a f
          Cons.IH [OF Cons.prems,
            of "w'\<lparr>stdout := stdout w' @ [''Error processing '' @ name p @ '': '' @ msg]\<rparr>"]
        show ?thesis by (simp add: print_def)
      qed
    qed
  qed
qed

lemma resize_images_frame:
  assumes "q \<noteq> K (output_dir file)" and "\<forall>x. q \<noteq> K (output_dir file @ [x])"
  shows "map_of (files (snd (resize_images K L file w))) q = map_of (files w) q"
proof (cases "mkdir_exist_ok K (output_dir file) (files w)")
  case (Inl e)
  then show ?thesis by (simp add: resize_images_def)
next
  case (Inr fs1)
  note m = mkdir_other [OF Inr assms(1)]
  show ?thesis
  proof (cases "image_files K file fs1")
    case (Inl e)
    with Inr m show ?thesis by (simp add: resize_images_def)
  next
    case fl: (Inr fl)
    show ?thesis
    proof (cases "print_raises L (''Found '' @ str_nat (length fl) @ '' images to resize...'')")
      case (Some e)
      with Inr fl m show ?thesis by (simp add: resize_images_def print_def)
    next
      case None
      let ?w = "w\<lparr>files := fs1,
                  stdout := stdout w
                    @ [''Found '' @ str_nat (length fl) @ '' images to resize...'']\<rparr>"
      let ?r = "for_loop K L (output_dir file) (length fl) (zip [1 ..< Suc (length fl)] fl) ?w"
      have "map_of (files (snd ?r)) q = map_of (files ?w) q"
        by (rule for_loop_frame [OF assms(2)])
      then have 1: "map_of (files (snd ?r)) q = map_of (files w) q"
        using m by simp
      have "files (snd (resize_images K L file w)) = files (snd ?r)"
        using Inr fl None
        by (cases ?r)
           (auto simp: resize_images_def print_def print_all_files split: option.splits
                 simp del: upt_Suc)
      with 1 show ?thesis by simp
    qed
  qed
qed

lemma main_frame:
  assumes "q \<noteq> K (output_dir file)" and "\<forall>x. q \<noteq> K (output_dir file @ [x])"
  shows "map_of (files (snd (main K L file w))) q = map_of (files w) q"
  using assms by (simp add: main_files resize_images_frame)

lemma main_frame_id:
  assumes "\<not> under (output_dir file) q"
  shows "map_of (files (snd (main id L file w))) q = map_of (files w) q"
proof -
  from assms have "parent q \<noteq> output_dir file"
    by (intro not_under_parent output_dir_nonempty)
  then have "\<forall>x. q \<noteq> id (output_dir file @ [x])" by (auto simp: parent_child)
  moreover from assms have "q \<noteq> id (output_dir file)" by (auto simp: under_def)
  ultimately show ?thesis by (intro main_frame)
qed

lemma mkdir_existing:
  "map_of fs (K d) = Some Dir \<Longrightarrow> mkdir_exist_ok K d fs = Inr fs"
  by (simp add: mkdir_exist_ok_def)

lemma mkdir_creates:
  "map_of fs (K d) = None \<Longrightarrow> map_of fs (parent (K d)) = Some Dir \<Longrightarrow>
   mkdir_exist_ok K d fs = Inr (fs @ [(K d, Dir)]) \<and> map_of (fs @ [(K d, Dir)]) (K d) = Some Dir"
  by (simp add: mkdir_exist_ok_def map_add_def)

lemma mkdir_file:
  "map_of fs (K d) = Some (File b) \<Longrightarrow>
   mkdir_exist_ok K d fs = Inl (Exception (''[Errno 17] File exists: '' @ quoted d))"
  by (simp add: mkdir_exist_ok_def)

text \<open>
  A run can modify a file under the source directory. When the destination directory is
  a symbolic link to the source directory, \<^verbatim>\<open>mkdir(exist_ok=True)\<close> accepts it, and
  the output for \<^verbatim>\<open>a.PNG\<close> is written to the file that
  \<^verbatim>\<open>cocktails-resized/a.jpg\<close> denotes, which is the source image \<^verbatim>\<open>a.jpg\<close>:
  after the run, which exits with code 0, that source file has another content.
\<close>

theorem source_file_overwritten_counterexample:
  "under (cocktails_dir test_file) (src_dir @ [''a.jpg''])
   \<and> map_of link_fs (src_dir @ [''a.jpg'']) = Some (File [1, 7, 8, 9])
   \<and> fst (main link_naming test_env test_file \<lparr>files = link_fs, stdout = []\<rparr>) = 0
   \<and> map_of (files (snd (main link_naming test_env test_file
                             \<lparr>files = link_fs, stdout = []\<rparr>)))
        (src_dir @ [''a.jpg''])
       = Some (File [255, 255, 255])"
  by (simp add: main_defs under_def link_naming_def link_fs_def)

text \<open>
  Claim C8, amended. After a run, whatever its outcome, the only paths of the filesystem
  whose content can differ are the file that the destination directory's path denotes
  and the files that the paths directly inside it denote; every other file holds what it
  held before. On a filesystem without links and with case-sensitive names these are the
  destination directory and its entries, so every path in or below the source directory,
  and every path that is not the destination directory or below it, holds what it held
  before. In general the source directory is untouched provided none of those paths
  denotes a file in or below it. Creating the destination directory raises nothing and
  changes nothing when its path denotes a directory already (also through a link),
  creates it when it denotes nothing and its parent is a directory, and raises when it
  denotes a regular file.
\<close>

theorem source_directory_untouched:
  "(p \<noteq> K (output_dir file) \<and> (\<forall>x. p \<noteq> K (output_dir file @ [x])) \<longrightarrow>
      map_of (files (snd (main K L file w))) p = map_of (files w) p)
   \<and> (under (K (cocktails_dir file)) p
        \<and> \<not> under (K (cocktails_dir file)) (K (output_dir file))
        \<and> (\<forall>x. \<not> under (K (cocktails_dir file)) (K (output_dir file @ [x]))) \<longrightarrow>
      map_of (files (snd (main K L file w))) p = map_of (files w) p)
   \<and> (under (cocktails_dir file) p \<longrightarrow>
      map_of (files (snd (main id L file w))) p = map_of (files w) p)
   \<and> (\<not> under (output_dir file) p \<longrightarrow>
      map_of (files (snd (main id L file w))) p = map_of (files w) p)
   \<and> (map_of (files w) (K (output_dir file)) = Some Dir \<longrightarrow>
      mkdir_exist_ok K (output_dir file) (files w) = Inr (files w))
   \<and> (map_of (files w) (K (output_dir file)) = None
        \<and> map_of (files w) (parent (K (output_dir file))) = Some Dir \<longrightarrow>
      mkdir_exist_ok K (output_dir file) (files w)
        = Inr (files w @ [(K (output_dir file), Dir)])
      \<and> map_of (files w @ [(K (output_dir file), Dir)]) (K (output_dir file)) = Some Dir)
   \<and> (map_of (files w) (K (output_dir file)) = Some (File b) \<longrightarrow>
      mkdir_exist_ok K (output_dir file) (files w)
        = Inl (Exception (''[Errno 17] File exists: '' @ quoted (output_dir file))))"
proof (intro conjI impI)
  assume "p \<noteq> K (output_dir file) \<and> (\<forall>x. p \<noteq> K (output_dir file @ [x]))"
  then show "map_of (files (snd (main K L file w))) p = map_of (files w) p"
    by (elim conjE) (rule main_frame; assumption)
next
  assume a: "under (K (cocktails_dir file)) p
        \<and> \<not> under (K (cocktails_dir file)) (K (output_dir file))
        \<and> (\<forall>x. \<not> under (K (cocktails_dir file)) (K (output_dir file @ [x])))"
  then have "p \<noteq> K (output_dir file)" by blast
  moreover from a have "\<forall>x. p \<noteq> K (output_dir file @ [x])" by blast
  ultimately show "map_of (files (snd (main K L file w))) p = map_of (files w) p"
    by (rule main_frame)
next
  assume "under (cocktails_dir file) p"
  then have "\<not> under (output_dir file) p" by (rule source_not_under_output)
  then show "map_of (files (snd (main id L file w))) p = map_of (files w) p"
    by (rule main_frame_id)
next
  assume "\<not> under (output_dir file) p"
  then show "map_of (files (snd (main id L file w))) p = map_of (files w) p"
    by (rule main_frame_id)
next
  assume "map_of (files w) (K (output_dir file)) = Some Dir"
  then show "mkdir_exist_ok K (output_dir file) (files w) = Inr (files w)"
    by (rule mkdir_existing)
next
  assume a: "map_of (files w) (K (output_dir file)) = None
        \<and> map_of (files w) (parent (K (output_dir file))) = Some Dir"
  then have c: "mkdir_exist_ok K (output_dir file) (files w)
        = Inr (files w @ [(K (output_dir file), Dir)])
      \<and> map_of (files w @ [(K (output_dir file), Dir)]) (K (output_dir file)) = Some Dir"
    by (elim conjE) (rule mkdir_creates; assumption)
  from c show "mkdir_exist_ok K (output_dir file) (files w)
        = Inr (files w @ [(K (output_dir file), Dir)])" by (rule conjunct1)
  from c show "map_of (files w @ [(K (output_dir file), Dir)]) (K (output_dir file)) = Some Dir"
    by (rule conjunct2)
next
  assume "map_of (files w) (K (output_dir file)) = Some (File b)"
  then show "mkdir_exist_ok K (output_dir file) (files w)
        = Inl (Exception (''[Errno 17] File exists: '' @ quoted (output_dir file)))"
    by (rule mkdir_file)
qed

theorem source_directory_untouched_witness:
  "[''repo'', ''assets''] \<noteq> link_naming (output_dir test_file)
   \<and> (\<forall>x. [''repo'', ''assets''] \<noteq> link_naming (output_dir test_file @ [x]))
   \<and> map_of (files (snd (main link_naming test_env test_file
                             \<lparr>files = link_fs, stdout = []\<rparr>)))
         [''repo'', ''assets'']
       = map_of (files \<lparr>files = link_fs, stdout = []\<rparr>) [''repo'', ''assets'']
   \<and> under (id (cocktails_dir test_file)) (src_dir @ [''a.PNG''])
   \<and> \<not> under (id (cocktails_dir test_file)) (id (output_dir test_file))
   \<and> (\<forall>x. \<not> under (id (cocktails_dir test_file)) (id (output_dir test_file @ [x])))
   \<and> under (cocktails_dir test_file) (src_dir @ [''a.PNG''])
   \<and> map_of (files (snd (main id test_env test_file \<lparr>files = test_fs, stdout = []\<rparr>)))
         (src_dir @ [''a.PNG''])
       = map_of (files \<lparr>files = test_fs, stdout = []\<rparr>) (src_dir @ [''a.PNG''])
   \<and> \<not> under (output_dir test_file) [''repo'', ''assets'']
   \<and> map_of (files (snd (main id test_env test_file \<lparr>files = test_fs, stdout = []\<rparr>)))
         [''repo'', ''assets'']
       = map_of (files \<lparr>files = test_fs, stdout = []\<rparr>) [''repo'', ''assets'']
   \<and> map_of (files \<lparr>files = link_fs, stdout = []\<rparr>) (link_naming (output_dir test_file))
       = Some Dir
   \<and> mkdir_exist_ok link_naming (output_dir test_file) (files \<lparr>files = link_fs, stdout = []\<rparr>)
       = Inr (files \<lparr>files = link_fs, stdout = []\<rparr>)
   \<and> map_of (files \<lparr>files = test_fs, stdout = []\<rparr>) (id (output_dir test_file)) = None
   \<and> map_of (files \<lparr>files = test_fs, stdout = []\<rparr>) (parent (id (output_dir test_file)))
       = Some Dir
   \<and> mkdir_exist_ok id (output_dir test_file) (files \<lparr>files = test_fs, stdout = []\<rparr>)
       = Inr (files \<lparr>files = test_fs, stdout = []\<rparr> @ [(id (output_dir test_file), Dir)])
   \<and> map_of (files \<lparr>files = test_fs, stdout = []\<rparr> @ [(id (output_dir test_file), Dir)])
         (id (output_dir test_file)) = Some Dir
   \<and> map_of (files \<lparr>files = no_source_fs @ [(dst_dir, File [])], stdout = []\<rparr>)
         (id (output_dir test_file)) = Some (File [])
   \<and> mkdir_exist_ok id (output_dir test_file)
         (files \<lparr>files = no_source_fs @ [(dst_dir, File [])], stdout = []\<rparr>)
       = Inl (Exception (''[Errno 17] File exists: '' @ quoted (output_dir test_file)))"
proof -
  let ?v = "\<lparr>files = test_fs, stdout = []\<rparr>"
  let ?l = "\<lparr>files = link_fs, stdout = []\<rparr>"
  let ?f = "\<lparr>files = no_source_fs @ [(dst_dir, File [])], stdout = []\<rparr>"
  note Tl = source_directory_untouched
      [where K = link_naming and ?file = test_file and p = "[''repo'', ''assets'']"
         and L = test_env and w = ?l and b = "[]"]
  note Ta = source_directory_untouched
      [where K = id and ?file = test_file and p = "src_dir @ [''a.PNG'']"
         and L = test_env and w = ?v and b = "[]"]
  note Tb = source_directory_untouched
      [where K = id and ?file = test_file and p = "[''repo'', ''assets'']"
         and L = test_env and w = ?v and b = "[]"]
  note Tf = source_directory_untouched
      [where K = id and ?file = test_file and p = "[]"
         and L = test_env and w = ?f and b = "[]"]
  have l1: "[''repo'', ''assets''] \<noteq> link_naming (output_dir test_file)"
    by (simp add: link_naming_def test_paths src_dir_def dst_dir_def)
  have l2: "\<forall>x. [''repo'', ''assets''] \<noteq> link_naming (output_dir test_file @ [x])"
    by (simp add: link_naming_def test_paths src_dir_def dst_dir_def)
  have a1: "under (id (cocktails_dir test_file)) (src_dir @ [''a.PNG''])"
    by (simp add: under_def test_paths src_dir_def)
  have a2: "\<not> under (id (cocktails_dir test_file)) (id (output_dir test_file))"
    by (simp add: under_def test_paths src_dir_def dst_dir_def)
  have a3: "\<forall>x. \<not> under (id (cocktails_dir test_file)) (id (output_dir test_file @ [x]))"
    by (simp add: under_def test_paths src_dir_def dst_dir_def)
  have a: "under (cocktails_dir test_file) (src_dir @ [''a.PNG''])"
    by (simp add: under_def test_paths src_dir_def)
  have b: "\<not> under (output_dir test_file) [''repo'', ''assets'']"
    by (simp add: under_def test_paths dst_dir_def)
  have c: "map_of (files ?l) (link_naming (output_dir test_file)) = Some Dir"
    by (simp add: link_naming_def test_paths link_fs_def src_dir_def dst_dir_def)
  have d: "map_of (files ?v) (id (output_dir test_file)) = None"
    by (simp add: test_paths test_fs_def src_dir_def dst_dir_def)
  have e: "map_of (files ?v) (parent (id (output_dir test_file))) = Some Dir"
    by (simp add: test_paths test_fs_def src_dir_def dst_dir_def parent_def)
  have f: "map_of (files ?f) (id (output_dir test_file)) = Some (File [])"
    by (simp add: test_paths no_source_fs_def dst_dir_def)
  from Tl [THEN conjunct1, THEN mp, OF conjI [OF l1 l2]]
  have l': "map_of (files (snd (main link_naming test_env test_file ?l))) [''repo'', ''assets'']
       = map_of (files ?l) [''repo'', ''assets'']" .
  from Ta [THEN conjunct2, THEN conjunct1, THEN mp, OF conjI [OF a1 conjI [OF a2 a3]]]
  have a': "map_of (files (snd (main id test_env test_file ?v))) (src_dir @ [''a.PNG''])
       = map_of (files ?v) (src_dir @ [''a.PNG''])" .
  from Ta [THEN conjunct2, THEN conjunct2, THEN conjunct1, THEN mp, OF a]
  have a'': "map_of (files (snd (main id test_env test_file ?v))) (src_dir @ [''a.PNG''])
       = map_of (files ?v) (src_dir @ [''a.PNG''])" .
  from Tb [THEN conjunct2, THEN conjunct2, THEN conjunct2, THEN conjunct1, THEN mp, OF b]
  have b': "map_of (files (snd (main id test_env test_file ?v))) [''repo'', ''assets'']
       = map_of (files ?v) [''repo'', ''assets'']" .
  from Tl [THEN conjunct2, THEN conjunct2, THEN conjunct2, THEN conjunct2, THEN conjunct1,
           THEN mp, OF c]
  have c': "mkdir_exist_ok link_naming (output_dir test_file) (files ?l) = Inr (files ?l)" .
  from Ta [THEN conjunct2, THEN conjunct2, THEN conjunct2, THEN conjunct2, THEN conjunct2,
           THEN conjunct1, THEN mp, OF conjI [OF d e]]
  have de: "mkdir_exist_ok id (output_dir test_file) (files ?v)
        = Inr (files ?v @ [(id (output_dir test_file), Dir)])
      \<and> map_of (files ?v @ [(id (output_dir test_file), Dir)]) (id (output_dir test_file))
          = Some Dir" .
  from Tf [THEN conjunct2, THEN conjunct2, THEN conjunct2, THEN conjunct2, THEN conjunct2,
           THEN conjunct2, THEN mp, OF f]
  have f': "mkdir_exist_ok id (output_dir test_file) (files ?f)
       = Inl (Exception (''[Errno 17] File exists: '' @ quoted (output_dir test_file)))" .
  note de1 = de [THEN conjunct1] and de2 = de [THEN conjunct2]
  from l1 l2 l' a1 a2 a3 a a'' b b' c c' d e de1 de2 f f' show ?thesis by (intro conjI)
qed

section \<open>Inputs and their output files\<close>

lemma output_path_by_stem:
  "(id (out_dir @ [stem n1 @ ''.jpg'']) = id (out_dir @ [stem n2 @ ''.jpg'']))
     = (stem n1 = stem n2)"
  by simp

lemma save_failure:
  "save K L im p fmt qu opt fs = (Some e, fs') \<Longrightarrow>
     map_of fs' (K p) = map_of fs (K p)
     \<or> (encode L im fmt qu opt = Inl e \<and> map_of fs' (K p) = Some (File []))"
  by (auto simp: save_def update_conv' split: option.splits node.splits sum.splits exn.splits
                 if_splits)

lemma process_image_early_failure:
  assumes "Image_open K L (files w) p = Inl e
           \<or> (\<exists>img. Image_open K L (files w) p = Inr img
                \<and> (to_rgb L img = Inl e
                    \<or> (\<exists>img'. to_rgb L img = Inr img'
                          \<and> ImageOps_fit L img' (400, 400) LANCZOS = Inl e)))"
  shows "process_image K L out i n p w = Inl (e, w)"
  using assms by (auto simp: process_image_def)

lemma process_image_failure:
  assumes "process_image K L out i n p w = Inl (e, w')"
  shows "map_of (files w') (K (out @ [stem (name p) @ ''.jpg'']))
           = map_of (files w) (K (out @ [stem (name p) @ ''.jpg'']))
         \<or> (\<exists>img. mode img = ''RGB'' \<and> size_img img = (400, 400)
               \<and> encode L img ''JPEG'' 85 True = Inl e
               \<and> map_of (files w') (K (out @ [stem (name p) @ ''.jpg''])) = Some (File []))
         \<or> (\<exists>img b m. mode img = ''RGB'' \<and> size_img img = (400, 400)
               \<and> encode L img ''JPEG'' 85 True = Inr b
               \<and> map_of (files w') (K (out @ [stem (name p) @ ''.jpg''])) = Some (File b)
               \<and> e = Exception m
               \<and> print_raises L (''Resized '' @ str_nat i @ ''/'' @ str_nat n @ '': '' @ name p)
                   = Some m)"
proof (cases "Image_open K L (files w) p")
  case (Inl e1)
  with assms show ?thesis by (simp add: process_image_def)
next
  case img: (Inr img)
  show ?thesis
  proof (cases "to_rgb L img")
    case (Inl e1)
    with assms img show ?thesis by (simp add: process_image_def)
  next
    case rgb: (Inr img')
    show ?thesis
    proof (cases "ImageOps_fit L img' (400, 400) LANCZOS")
      case (Inl e1)
      with assms img rgb show ?thesis by (simp add: process_image_def)
    next
      case fit: (Inr r)
      from to_rgb_mode [OF rgb] fit_result [OF fit]
      have r: "mode r = ''RGB''" "size_img r = (400, 400)" by simp_all
      let ?k = "out @ [stem (name p) @ ''.jpg'']"
      obtain se fs' where s: "save K L r ?k ''JPEG'' 85 True (files w) = (se, fs')"
        by (cases "save K L r ?k ''JPEG'' 85 True (files w)")
      show ?thesis
      proof (cases se)
        case (Some e1)
        with assms img rgb fit s have e: "e1 = e" and w': "w' = w\<lparr>files := fs'\<rparr>"
          by (simp_all add: process_image_def)
        from save_failure [of K L r ?k "''JPEG''" 85 True "files w" e fs'] s Some e
        have "map_of fs' (K ?k) = map_of (files w) (K ?k)
              \<or> (encode L r ''JPEG'' 85 True = Inl e \<and> map_of fs' (K ?k) = Some (File []))"
          by simp
        with r w' show ?thesis by auto
      next
        case None
        with s save_result [of K L r ?k "''JPEG''" 85 True "files w" fs']
        obtain b where b: "encode L r ''JPEG'' 85 True = Inr b"
          and fs': "fs' = AList.update (K ?k) (File b) (files w)"
          by auto
        from fs' have k: "map_of fs' (K ?k) = Some (File b)" by (simp add: update_conv')
        let ?line = "''Resized '' @ str_nat i @ ''/'' @ str_nat n @ '': '' @ name p"
        show ?thesis
        proof (cases "print_raises L ?line")
          case pn: None
          with assms img rgb fit s None show ?thesis
            by (simp add: process_image_def print_def)
        next
          case (Some m)
          with assms img rgb fit s None have "e = Exception m" and "w' = w\<lparr>files := fs'\<rparr>"
            by (simp_all add: process_image_def print_def)
          with r b k Some show ?thesis by auto
        qed
      qed
    qed
  qed
qed

text \<open>
  A failed input can have an output file, and two inputs can share one. On a console that
  cannot print the progress line of a good image, the image is saved first and the
  iteration fails afterwards: the input is reported as failed (here the run even ends,
  with code 1) and its output file is in the destination directory. And the source
  directory of \<open>test_fs\<close> holds \<^verbatim>\<open>a.PNG\<close> and \<^verbatim>\<open>a.jpg\<close>: both are processed
  successfully, both are written to \<^verbatim>\<open>a.jpg\<close> in the destination directory, and after
  the run that one file holds the second image only.
\<close>

theorem failed_input_has_output_counterexample:
  "process_image id ascii_env dst_dir 1 1 (src_dir @ [[CHR 0xC3, CHR 0xA9] @ ''.png''])
      \<lparr>files = accent_ok_fs, stdout = [''Found 1 images to resize...'']\<rparr>
     = Inl (Exception ''ascii codec cannot encode character'',
            \<lparr>files = accent_ok_fs
                       @ [(dst_dir @ [[CHR 0xC3, CHR 0xA9] @ ''.jpg''], File [1, 2, 3])],
               stdout = [''Found 1 images to resize...'']\<rparr>)
   \<and> main id ascii_env test_file \<lparr>files = accent_ok_fs, stdout = []\<rparr>
     = (1, \<lparr>files = accent_ok_fs
                      @ [(dst_dir @ [[CHR 0xC3, CHR 0xA9] @ ''.jpg''], File [1, 2, 3])],
             stdout = [''Found 1 images to resize...'']\<rparr>)
   \<and> src_dir @ [''a.PNG''] \<noteq> src_dir @ [''a.jpg'']
   \<and> main id test_env test_file \<lparr>files = test_fs, stdout = []\<rparr>
     = (0, \<lparr>files = test_fs @ [(dst_dir, Dir), (dst_dir @ [''a.jpg''], File [7, 8, 9])],
           stdout = [''Found 3 images to resize...'', ''Resized 1/3: a.PNG'',
                     ''Error processing bad.webp: cannot identify image file'',
                     ''Resized 3/3: a.jpg'',
                     [CHR 0x0A, CHR 0xE2, CHR 0x9C, CHR 0x85]
                       @ '' All images resized successfully!'',
                     ''Resized images saved to: /repo/assets/cocktails-resized'',
                     ''After verifying the resized images, replace the original folder.'']\<rparr>)"
  by (simp add: main_defs)

text \<open>
  Claim C7, amended. An input that fails while it is opened, converted or resized leaves
  every file as it was. Whatever the failure, the only file that the processing of an
  input can change is the one that the destination directory's \<^verbatim>\<open><stem>.jpg\<close> denotes,
  and nothing is printed by the failed body. After a failure that file is as before, or
  it is left empty because the encoder raised while writing it, or it holds the complete
  output because only the progress line could not be printed. An input that is processed
  successfully writes exactly that file and changes no other. So the outputs of two
  inputs are distinct files exactly when their output paths denote different files; on a
  filesystem without links and with case-sensitive names that is exactly when their stems
  differ, and inputs that differ only in their extension share one output file.
\<close>

theorem failed_input_output_file:
  "((Image_open K L (files w) image_path = Inl e
       \<or> (\<exists>img. Image_open K L (files w) image_path = Inr img
            \<and> (to_rgb L img = Inl e
                \<or> (\<exists>img'. to_rgb L img = Inr img'
                      \<and> ImageOps_fit L img' (400, 400) LANCZOS = Inl e))))
      \<longrightarrow> process_image K L out_dir i n image_path w = Inl (e, w))
   \<and> (process_image K L out_dir i n image_path w = Inl (e, w') \<longrightarrow>
        stdout w' = stdout w
        \<and> (\<forall>q. q \<noteq> K (out_dir @ [stem (name image_path) @ ''.jpg'']) \<longrightarrow>
               map_of (files w') q = map_of (files w) q)
        \<and> (map_of (files w') (K (out_dir @ [stem (name image_path) @ ''.jpg'']))
             = map_of (files w) (K (out_dir @ [stem (name image_path) @ ''.jpg'']))
           \<or> (\<exists>img. mode img = ''RGB'' \<and> size_img img = (400, 400)
                 \<and> encode L img ''JPEG'' 85 True = Inl e
                 \<and> map_of (files w') (K (out_dir @ [stem (name image_path) @ ''.jpg'']))
                     = Some (File []))
           \<or> (\<exists>img b m. mode img = ''RGB'' \<and> size_img img = (400, 400)
                 \<and> encode L img ''JPEG'' 85 True = Inr b
                 \<and> map_of (files w') (K (out_dir @ [stem (name image_path) @ ''.jpg'']))
                     = Some (File b)
                 \<and> e = Exception m
                 \<and> print_raises L (''Resized '' @ str_nat i @ ''/'' @ str_nat n @ '': ''
                                     @ name image_path) = Some m)))
   \<and> (process_image K L out_dir i n image_path w = Inr w' \<longrightarrow>
       (\<exists>b. files w'
              = AList.update (K (out_dir @ [stem (name image_path) @ ''.jpg''])) (File b)
                  (files w))
       \<and> (\<forall>q. q \<noteq> K (out_dir @ [stem (name image_path) @ ''.jpg'']) \<longrightarrow>
              map_of (files w') q = map_of (files w) q))
   \<and> ((id (out_dir @ [stem n1 @ ''.jpg'']) = id (out_dir @ [stem n2 @ ''.jpg'']))
        = (stem n1 = stem n2))"
proof (intro conjI impI allI)
  assume "Image_open K L (files w) image_path = Inl e
       \<or> (\<exists>img. Image_open K L (files w) image_path = Inr img
            \<and> (to_rgb L img = Inl e
                \<or> (\<exists>img'. to_rgb L img = Inr img'
                      \<and> ImageOps_fit L img' (400, 400) LANCZOS = Inl e)))"
  then show "process_image K L out_dir i n image_path w = Inl (e, w)"
    by (rule process_image_early_failure)
next
  assume "process_image K L out_dir i n image_path w = Inl (e, w')"
  then show "stdout w' = stdout w" by (rule process_image_failure_stdout)
next
  fix q
  assume a: "process_image K L out_dir i n image_path w = Inl (e, w')"
    and q: "q \<noteq> K (out_dir @ [stem (name image_path) @ ''.jpg''])"
  from process_image_frame(2) [where K = K and out = out_dir and p = image_path and q = q,
      OF q a]
  show "map_of (files w') q = map_of (files w) q" .
next
  assume "process_image K L out_dir i n image_path w = Inl (e, w')"
  then show "map_of (files w') (K (out_dir @ [stem (name image_path) @ ''.jpg'']))
             = map_of (files w) (K (out_dir @ [stem (name image_path) @ ''.jpg'']))
           \<or> (\<exists>img. mode img = ''RGB'' \<and> size_img img = (400, 400)
                 \<and> encode L img ''JPEG'' 85 True = Inl e
                 \<and> map_of (files w') (K (out_dir @ [stem (name image_path) @ ''.jpg'']))
                     = Some (File []))
           \<or> (\<exists>img b m. mode img = ''RGB'' \<and> size_img img = (400, 400)
                 \<and> encode L img ''JPEG'' 85 True = Inr b
                 \<and> map_of (files w') (K (out_dir @ [stem (name image_path) @ ''.jpg'']))
                     = Some (File b)
                 \<and> e = Exception m
                 \<and> print_raises L (''Resized '' @ str_nat i @ ''/'' @ str_nat n @ '': ''
                                     @ name image_path) = Some m)"
    by (rule process_image_failure)
next
  assume a: "process_image K L out_dir i n image_path w = Inr w'"
  from process_image_success [OF a]
  show "\<exists>b. files w'
              = AList.update (K (out_dir @ [stem (name image_path) @ ''.jpg''])) (File b)
                  (files w)"
    by blast
next
  fix q
  assume a: "process_image K L out_dir i n image_path w = Inr w'"
    and q: "q \<noteq> K (out_dir @ [stem (name image_path) @ ''.jpg''])"
  from process_image_frame(1) [where K = K and out = out_dir and p = image_path and q = q,
      OF q a]
  show "map_of (files w') q = map_of (files w) q" .
next
  show "(id (out_dir @ [stem n1 @ ''.jpg'']) = id (out_dir @ [stem n2 @ ''.jpg'']))
        = (stem n1 = stem n2)"
    by (rule output_path_by_stem)
qed

theorem failed_input_output_file_witness:
  "Image_open id test_env (files \<lparr>files = test_fs @ [(dst_dir, Dir)], stdout = []\<rparr>)
      (src_dir @ [''bad.webp''])
     = Inl (Exception ''cannot identify image file'')
   \<and> process_image id test_env dst_dir 2 3 (src_dir @ [''bad.webp''])
        \<lparr>files = test_fs @ [(dst_dir, Dir)], stdout = []\<rparr>
     = Inl (Exception ''cannot identify image file'',
            \<lparr>files = test_fs @ [(dst_dir, Dir)], stdout = []\<rparr>)
   \<and> process_image id ascii_env dst_dir 1 1 (src_dir @ [[CHR 0xC3, CHR 0xA9] @ ''.png''])
        \<lparr>files = accent_ok_fs, stdout = []\<rparr>
     = Inl (Exception ''ascii codec cannot encode character'',
            \<lparr>files = accent_ok_fs
                       @ [(dst_dir @ [[CHR 0xC3, CHR 0xA9] @ ''.jpg''], File [1, 2, 3])],
               stdout = []\<rparr>)
   \<and> stdout \<lparr>files = accent_ok_fs
                        @ [(dst_dir @ [[CHR 0xC3, CHR 0xA9] @ ''.jpg''], File [1, 2, 3])],
              stdout = []\<rparr>
       = stdout \<lparr>files = accent_ok_fs, stdout = []\<rparr>
   \<and> src_dir @ [[CHR 0xC3, CHR 0xA9] @ ''.png'']
       \<noteq> id (dst_dir @ [stem (name (src_dir @ [[CHR 0xC3, CHR 0xA9] @ ''.png''])) @ ''.jpg''])
   \<and> map_of (files \<lparr>files = accent_ok_fs
                        @ [(dst_dir @ [[CHR 0xC3, CHR 0xA9] @ ''.jpg''], File [1, 2, 3])],
                     stdout = []\<rparr>)
         (src_dir @ [[CHR 0xC3, CHR 0xA9] @ ''.png''])
       = map_of (files \<lparr>files = accent_ok_fs, stdout = []\<rparr>)
           (src_dir @ [[CHR 0xC3, CHR 0xA9] @ ''.png''])
   \<and> (map_of (files \<lparr>files = accent_ok_fs
                        @ [(dst_dir @ [[CHR 0xC3, CHR 0xA9] @ ''.jpg''], File [1, 2, 3])],
                     stdout = []\<rparr>)
          (id (dst_dir @ [stem (name (src_dir @ [[CHR 0xC3, CHR 0xA9] @ ''.png''])) @ ''.jpg'']))
        = map_of (files \<lparr>files = accent_ok_fs, stdout = []\<rparr>)
          (id (dst_dir @ [stem (name (src_dir @ [[CHR 0xC3, CHR 0xA9] @ ''.png''])) @ ''.jpg'']))
      \<or> (\<exists>img. mode img = ''RGB'' \<and> size_img img = (400, 400)
            \<and> encode ascii_env img ''JPEG'' 85 True
                = Inl (Exception ''ascii codec cannot encode character'')
            \<and> map_of (files \<lparr>files = accent_ok_fs
                        @ [(dst_dir @ [[CHR 0xC3, CHR 0xA9] @ ''.jpg''], File [1, 2, 3])],
                     stdout = []\<rparr>)
                 (id (dst_dir @ [stem (name (src_dir @ [[CHR 0xC3, CHR 0xA9] @ ''.png'']))
                                  @ ''.jpg'']))
                = Some (File []))
      \<or> (\<exists>img b m. mode img = ''RGB'' \<and> size_img img = (400, 400)
            \<and> encode ascii_env img ''JPEG'' 85 True = Inr b
            \<and> map_of (files \<lparr>files = accent_ok_fs
                        @ [(dst_dir @ [[CHR 0xC3, CHR 0xA9] @ ''.jpg''], File [1, 2, 3])],
                     stdout = []\<rparr>)
                 (id (dst_dir @ [stem (name (src_dir @ [[CHR 0xC3, CHR 0xA9] @ ''.png'']))
                                  @ ''.jpg'']))
                = Some (File b)
            \<and> Exception ''ascii codec cannot encode character'' = Exception m
            \<and> print_raises ascii_env
                 (''Resized '' @ str_nat 1 @ ''/'' @ str_nat 1 @ '': ''
                    @ name (src_dir @ [[CHR 0xC3, CHR 0xA9] @ ''.png''])) = Some m))
   \<and> process_image id test_env dst_dir 1 3 (src_dir @ [''a.PNG''])
      \<lparr>files = test_fs @ [(dst_dir, Dir)], stdout = []\<rparr>
     = Inr \<lparr>files = test_fs @ [(dst_dir, Dir), (dst_dir @ [''a.jpg''], File [255, 255, 255])],
            stdout = [''Resized 1/3: a.PNG'']\<rparr>
   \<and> (\<exists>b. files \<lparr>files = test_fs @ [(dst_dir, Dir),
                                       (dst_dir @ [''a.jpg''], File [255, 255, 255])],
                    stdout = [''Resized 1/3: a.PNG'']\<rparr>
            = AList.update (id (dst_dir @ [stem (name (src_dir @ [''a.PNG''])) @ ''.jpg'']))
                (File b) (files \<lparr>files = test_fs @ [(dst_dir, Dir)], stdout = []\<rparr>))
   \<and> src_dir @ [''a.PNG''] \<noteq> id (dst_dir @ [stem (name (src_dir @ [''a.PNG''])) @ ''.jpg''])
   \<and> map_of (files \<lparr>files = test_fs @ [(dst_dir, Dir),
                                     (dst_dir @ [''a.jpg''], File [255, 255, 255])],
                  stdout = [''Resized 1/3: a.PNG'']\<rparr>) (src_dir @ [''a.PNG''])
       = map_of (files \<lparr>files = test_fs @ [(dst_dir, Dir)], stdout = []\<rparr>)
           (src_dir @ [''a.PNG''])
   \<and> stem ''a.PNG'' = stem ''a.jpg''
   \<and> id (dst_dir @ [stem ''a.PNG'' @ ''.jpg'']) = id (dst_dir @ [stem ''a.jpg'' @ ''.jpg''])"
proof -
  let ?u = "\<lparr>files = test_fs @ [(dst_dir, Dir)], stdout = []\<rparr>"
  let ?u' = "\<lparr>files = test_fs @ [(dst_dir, Dir), (dst_dir @ [''a.jpg''], File [255, 255, 255])],
            stdout = [''Resized 1/3: a.PNG'']\<rparr>"
  let ?a = "\<lparr>files = accent_ok_fs, stdout = []\<rparr>"
  let ?a' = "\<lparr>files = accent_ok_fs
                        @ [(dst_dir @ [[CHR 0xC3, CHR 0xA9] @ ''.jpg''], File [1, 2, 3])],
              stdout = []\<rparr>"
  let ?acc = "src_dir @ [[CHR 0xC3, CHR 0xA9] @ ''.png'']"
  let ?bad = "src_dir @ [''bad.webp'']"
  let ?e = "Exception ''cannot identify image file''"
  let ?x = "Exception ''ascii codec cannot encode character''"
  note Tf = failed_input_output_file
      [where K = id and L = test_env and out_dir = dst_dir and i = 2 and n = 3
         and image_path = ?bad and w = ?u and e = ?e and w' = ?u
         and ?n1.0 = "''a.PNG''" and ?n2.0 = "''a.jpg''"]
  note Ta = failed_input_output_file
      [where K = id and L = ascii_env and out_dir = dst_dir and i = 1 and n = 1
         and image_path = ?acc and w = ?a and e = ?x and w' = ?a'
         and ?n1.0 = "''a.PNG''" and ?n2.0 = "''a.jpg''"]
  note Ts = failed_input_output_file
      [where K = id and L = test_env and out_dir = dst_dir and i = 1 and n = 3
         and image_path = "src_dir @ [''a.PNG'']" and w = ?u
         and e = KeyboardInterrupt and w' = ?u'
         and ?n1.0 = "''a.PNG''" and ?n2.0 = "''a.jpg''"]
  have o: "Image_open id test_env (files ?u) ?bad = Inl ?e"
    by (simp add: main_defs)
  have fa: "process_image id ascii_env dst_dir 1 1 ?acc ?a = Inl (?x, ?a')"
    by (simp add: main_defs)
  have qa: "?acc \<noteq> id (dst_dir @ [stem (name ?acc) @ ''.jpg''])"
    by (simp add: src_dir_def dst_dir_def)
  have s: "process_image id test_env dst_dir 1 3 (src_dir @ [''a.PNG'']) ?u = Inr ?u'"
    by (simp add: main_defs)
  have q: "src_dir @ [''a.PNG'']
      \<noteq> id (dst_dir @ [stem (name (src_dir @ [''a.PNG''])) @ ''.jpg''])"
    by (simp add: src_dir_def dst_dir_def)
  have st: "stem ''a.PNG'' = stem ''a.jpg''" by (simp add: stem_def)
  from Tf [THEN conjunct1, THEN mp, OF disjI1 [OF o]]
  have f: "process_image id test_env dst_dir 2 3 ?bad ?u = Inl (?e, ?u)" .
  note A = Ta [THEN conjunct2, THEN conjunct1, THEN mp, OF fa]
  note a1 = A [THEN conjunct1]
  note a2 = A [THEN conjunct2, THEN conjunct1, THEN spec, THEN mp, OF qa]
  note a3 = A [THEN conjunct2, THEN conjunct2]
  note S = Ts [THEN conjunct2, THEN conjunct2, THEN conjunct1, THEN mp, OF s]
  note s1 = S [THEN conjunct1]
  note s2 = S [THEN conjunct2, THEN spec, THEN mp, OF q]
  note s3 = Ts [THEN conjunct2, THEN conjunct2, THEN conjunct2, THEN iffD2, OF st]
  from o f fa a1 qa a2 a3 s s1 q s2 st s3 show ?thesis by (intro conjI)
qed

section \<open>Running the script twice\<close>

lemma apply_effects_Keep: "apply_effects (\<lambda>q. Keep) m = m"
  by (rule ext) (simp add: apply_effects_def)

lemma apply_effects_then:
  "apply_effects D (apply_effects E m) = apply_effects (\<lambda>p. then_effect (E p) (D p)) m"
  by (rule ext) (simp add: apply_effects_def then_effect_def split: effect.splits option.splits)

lemma apply_effects_twice: "apply_effects D (apply_effects D m) = apply_effects D m"
  by (rule ext) (simp add: apply_effects_def split: effect.splits option.splits)

lemma apply_effects_put:
  "map_of (AList.update k x fs) = apply_effects (\<lambda>q. if q = k then Put x else Keep) (map_of fs)"
  by (rule ext) (simp add: apply_effects_def update_conv')

lemma apply_effects_trunc:
  "map_of (if map_of fs k = None then fs else AList.update k (File []) fs)
     = apply_effects (\<lambda>q. if q = k then Trunc else Keep) (map_of fs)"
  by (rule ext) (auto simp: apply_effects_def update_conv' split: option.splits)

lemma same_view_refl: "same_view out fs fs"
  by (simp add: same_view_def)

lemma same_view_apply:
  assumes sv: "same_view out fs fs'" and k: "parent k = out"
    and keep: "\<forall>q. q \<noteq> k \<longrightarrow> E q = Keep" and nd: "E k \<noteq> Put Dir"
    and g: "map_of gs = apply_effects E (map_of fs)"
    and g': "map_of gs' = apply_effects E (map_of fs')"
  shows "same_view out gs gs'"
  unfolding same_view_def
proof (intro conjI allI impI)
  fix p
  assume "parent p \<noteq> out"
  with k have "p \<noteq> k" by auto
  with keep have "E p = Keep" by simp
  moreover from sv \<open>parent p \<noteq> out\<close> have "map_of fs p = map_of fs' p"
    by (simp add: same_view_def)
  ultimately show "map_of gs p = map_of gs' p"
    by (simp add: g g' apply_effects_def)
next
  fix p
  from sv have d: "(map_of fs p = Some Dir) = (map_of fs' p = Some Dir)"
    by (simp add: same_view_def)
  show "(map_of gs p = Some Dir) = (map_of gs' p = Some Dir)"
  proof (cases "p = k")
    case False
    with keep have "E p = Keep" by simp
    with d show ?thesis by (simp add: g g' apply_effects_def)
  next
    case True
    show ?thesis
    proof (cases "E k")
      case Keep
      with True d show ?thesis by (simp add: g g' apply_effects_def)
    next
      case (Put x)
      with nd have "x \<noteq> Dir" by simp
      with True Put show ?thesis by (simp add: g g' apply_effects_def)
    next
      case Trunc
      with True show ?thesis
        by (simp add: g g' apply_effects_def split: option.splits)
    qed
  qed
qed

lemma save_not_dir_eq:
  "map_of fs (K p) \<noteq> Some Dir \<Longrightarrow>
   save K L im p fmt qu opt fs =
     (case map_of fs (parent (K p)) of
        Some Dir \<Rightarrow>
          (case encode L im fmt qu opt of
             Inr b \<Rightarrow> (None, AList.update (K p) (File b) fs)
           | Inl (Exception msg) \<Rightarrow>
               (Some (Exception msg),
                if map_of fs (K p) = None then fs else AList.update (K p) (File []) fs)
           | Inl KeyboardInterrupt \<Rightarrow>
               (Some KeyboardInterrupt, AList.update (K p) (File []) fs))
      | Some (File f) \<Rightarrow>
          (Some (Exception (''[Errno 20] Not a directory: '' @ quoted p)), fs)
      | None \<Rightarrow>
          (Some (Exception (''[Errno 2] No such file or directory: '' @ quoted p)), fs))"
  by (auto simp: save_def split: option.splits node.splits)

lemma save_sim:
  assumes d: "(map_of fs' (K p) = Some Dir) = (map_of fs (K p) = Some Dir)"
    and pa: "map_of fs' (parent (K p)) = map_of fs (parent (K p))"
  shows "\<exists>E. (\<forall>q. q \<noteq> K p \<longrightarrow> E q = Keep) \<and> E (K p) \<noteq> Put Dir
           \<and> fst (save K L im p fmt qu opt fs') = fst (save K L im p fmt qu opt fs)
           \<and> map_of (snd (save K L im p fmt qu opt fs)) = apply_effects E (map_of fs)
           \<and> map_of (snd (save K L im p fmt qu opt fs')) = apply_effects E (map_of fs')"
proof (cases "map_of fs (K p) = Some Dir")
  case True
  with d have "map_of fs' (K p) = Some Dir" by simp
  with True show ?thesis
    by (intro exI [of _ "\<lambda>q. Keep"]) (simp add: save_def apply_effects_Keep)
next
  case False
  with d have False': "map_of fs' (K p) \<noteq> Some Dir" by simp
  note s = save_not_dir_eq [where K = K and p = p and fs = fs and L = L and im = im
      and fmt = fmt and qu = qu and opt = opt, OF False]
  note s' = save_not_dir_eq [where K = K and p = p and fs = fs' and L = L and im = im
      and fmt = fmt and qu = qu and opt = opt, OF False']
  show ?thesis
  proof (cases "map_of fs (parent (K p))")
    case None
    with pa show ?thesis
      by (intro exI [of _ "\<lambda>q. Keep"]) (simp add: s s' apply_effects_Keep)
  next
    case (Some x)
    show ?thesis
    proof (cases x)
      case (File f)
      with Some pa show ?thesis
        by (intro exI [of _ "\<lambda>q. Keep"]) (simp add: s s' apply_effects_Keep)
    next
      case Dir
      show ?thesis
      proof (cases "encode L im fmt qu opt")
        case (Inr b)
        with Dir Some pa show ?thesis
          by (intro exI [of _ "\<lambda>q. if q = K p then Put (File b) else Keep"])
             (simp add: s s' apply_effects_put)
      next
        case (Inl e)
        show ?thesis
        proof (cases e)
          case KeyboardInterrupt
          with Inl Dir Some pa show ?thesis
            by (intro exI [of _ "\<lambda>q. if q = K p then Put (File []) else Keep"])
               (simp add: s s' apply_effects_put)
        next
          case (Exception msg)
          have t: "map_of (if map_of fs (K p) = None then fs
                           else AList.update (K p) (File []) fs)
                   = apply_effects (\<lambda>q. if q = K p then Trunc else Keep) (map_of fs)"
            by (rule apply_effects_trunc)
          have t': "map_of (if map_of fs' (K p) = None then fs'
                           else AList.update (K p) (File []) fs')
                   = apply_effects (\<lambda>q. if q = K p then Trunc else Keep) (map_of fs')"
            by (rule apply_effects_trunc)
          from Exception Inl Dir Some pa
          have 1: "save K L im p fmt qu opt fs =
                  (Some (Exception msg),
                   if map_of fs (K p) = None then fs else AList.update (K p) (File []) fs)"
            and 2: "save K L im p fmt qu opt fs' =
                  (Some (Exception msg),
                   if map_of fs' (K p) = None then fs' else AList.update (K p) (File []) fs')"
            by (simp_all add: s s')
          show ?thesis
            unfolding 1 2 fst_conv snd_conv t t'
            by (intro exI [of _ "\<lambda>q. if q = K p then Trunc else Keep"]) simp
        qed
      qed
    qed
  qed
qed

lemma process_sim:
  assumes sv: "same_view out (files w) (files v)" and ne: "out \<noteq> []"
    and p: "parent p \<noteq> out"
  shows "(\<forall>e w'. process_image id L out i n p w = Inl (e, w') \<longrightarrow>
            (\<exists>v' E. process_image id L out i n p v = Inl (e, v')
               \<and> map_of (files w') = apply_effects E (map_of (files w))
               \<and> map_of (files v') = apply_effects E (map_of (files v))
               \<and> same_view out (files w') (files v')))
       \<and> (\<forall>w'. process_image id L out i n p w = Inr w' \<longrightarrow>
            (\<exists>v' E. process_image id L out i n p v = Inr v'
               \<and> map_of (files w') = apply_effects E (map_of (files w))
               \<and> map_of (files v') = apply_effects E (map_of (files v))
               \<and> same_view out (files w') (files v')))"
proof -
  let ?k = "out @ [stem (name p) @ ''.jpg'']"
  let ?line = "''Resized '' @ str_nat i @ ''/'' @ str_nat n @ '': '' @ name p"
  from sv p have o: "Image_open id L (files v) p = Image_open id L (files w) p"
    by (simp add: same_view_def Image_open_def)
  have keepw: "map_of (files w) = apply_effects (\<lambda>q. Keep) (map_of (files w))"
    and keepv: "map_of (files v) = apply_effects (\<lambda>q. Keep) (map_of (files v))"
    by (simp_all add: apply_effects_Keep)
  show ?thesis
  proof (cases "Image_open id L (files w) p")
    case (Inl e1)
    with o sv keepw keepv show ?thesis by (auto simp: process_image_def)
  next
    case img: (Inr img)
    show ?thesis
    proof (cases "to_rgb L img")
      case (Inl e1)
      with img o sv keepw keepv show ?thesis by (auto simp: process_image_def)
    next
      case rgb: (Inr img')
      show ?thesis
      proof (cases "ImageOps_fit L img' (400, 400) LANCZOS")
        case (Inl e1)
        with img rgb o sv keepw keepv show ?thesis by (auto simp: process_image_def)
      next
        case fit: (Inr r)
        have pk: "parent (id ?k) = out" by (simp add: parent_child)
        have "parent (parent (id ?k)) \<noteq> out" using ne parent_not_self pk by auto
        with sv have 1: "map_of (files v) (parent (id ?k)) = map_of (files w) (parent (id ?k))"
          by (simp add: same_view_def)
        from sv have 2: "(map_of (files v) (id ?k) = Some Dir) = (map_of (files w) (id ?k) = Some Dir)"
          by (simp add: same_view_def)
        from save_sim [where K = id and p = ?k and fs = "files w" and fs' = "files v"
            and L = L and im = r and fmt = "''JPEG''" and qu = 85 and opt = True, OF 2 1]
        obtain E where
          keep: "\<forall>q. q \<noteq> id ?k \<longrightarrow> E q = Keep" and nd: "E (id ?k) \<noteq> Put Dir"
          and f: "fst (save id L r ?k ''JPEG'' 85 True (files v))
                  = fst (save id L r ?k ''JPEG'' 85 True (files w))"
          and mw: "map_of (snd (save id L r ?k ''JPEG'' 85 True (files w)))
                  = apply_effects E (map_of (files w))"
          and mv: "map_of (snd (save id L r ?k ''JPEG'' 85 True (files v)))
                  = apply_effects E (map_of (files v))"
          by blast
        obtain se fw where sw: "save id L r ?k ''JPEG'' 85 True (files w) = (se, fw)"
          by (cases "save id L r ?k ''JPEG'' 85 True (files w)")
        obtain se' fv where sv': "save id L r ?k ''JPEG'' 85 True (files v) = (se', fv)"
          by (cases "save id L r ?k ''JPEG'' 85 True (files v)")
        from f sw sv' have se: "se' = se" by simp
        from mw sw have mw': "map_of fw = apply_effects E (map_of (files w))" by simp
        from mv sv' have mv': "map_of fv = apply_effects E (map_of (files v))" by simp
        have svn: "same_view out fw fv"
          by (rule same_view_apply [OF sv pk keep nd mw' mv'])
        have pw: "process_image id L out i n p w =
             (case se of
                Some e \<Rightarrow> Inl (e, w\<lparr>files := fw\<rparr>)
              | None \<Rightarrow>
                  (case print_raises L ?line of
                     Some m \<Rightarrow> Inl (Exception m, w\<lparr>files := fw\<rparr>)
                   | None \<Rightarrow> Inr (w\<lparr>files := fw, stdout := stdout w @ [?line]\<rparr>)))"
          using img rgb fit sw
          by (simp add: process_image_def print_def split: option.splits)
        have pv: "process_image id L out i n p v =
             (case se of
                Some e \<Rightarrow> Inl (e, v\<lparr>files := fv\<rparr>)
              | None \<Rightarrow>
                  (case print_raises L ?line of
                     Some m \<Rightarrow> Inl (Exception m, v\<lparr>files := fv\<rparr>)
                   | None \<Rightarrow> Inr (v\<lparr>files := fv, stdout := stdout v @ [?line]\<rparr>)))"
          using img rgb fit sv' se o
          by (simp add: process_image_def print_def split: option.splits)
        show ?thesis
        proof (cases se)
          case (Some e1)
          with pw pv mw' mv' svn show ?thesis by auto
        next
          case None
          show ?thesis
          proof (cases "print_raises L ?line")
            case (Some m)
            with None pw pv mw' mv' svn show ?thesis by auto
          next
            case pn: None
            with None pw pv mw' mv' svn show ?thesis by auto
          qed
        qed
      qed
    qed
  qed
qed

lemma effects_compose:
  assumes "map_of fs1 = apply_effects E (map_of fs)"
    and "map_of fs2 = apply_effects D (map_of fs1)"
  shows "map_of fs2 = apply_effects (\<lambda>q. then_effect (E q) (D q)) (map_of fs)"
  using assms by (simp add: apply_effects_then)

lemma sim_loop:
  assumes "out \<noteq> []"
  shows "same_view out (files w) (files v) \<Longrightarrow>
         (\<forall>ip \<in> set items. parent (snd ip) \<noteq> out) \<Longrightarrow>
         fst (for_loop id L out n items w) = fst (for_loop id L out n items v)
         \<and> (\<exists>D. map_of (files (snd (for_loop id L out n items w)))
                   = apply_effects D (map_of (files w))
               \<and> map_of (files (snd (for_loop id L out n items v)))
                   = apply_effects D (map_of (files v)))"
proof (induction items arbitrary: w v)
  case Nil
  have "map_of (files w) = apply_effects (\<lambda>q. Keep) (map_of (files w))"
    "map_of (files v) = apply_effects (\<lambda>q. Keep) (map_of (files v))"
    by (simp_all add: apply_effects_Keep)
  then show ?case by (simp only: for_loop.simps fst_conv snd_conv) blast
next
  case (Cons a items)
  obtain i p where a: "a = (i, p)" by (cases a)
  from Cons.prems(2) a have pp: "parent p \<noteq> out" by simp
  from Cons.prems(2) have rest: "\<forall>ip \<in> set items. parent (snd ip) \<noteq> out" by simp
  note ps = process_sim [OF Cons.prems(1) assms pp, of L i n]
  show ?case
  proof (cases "process_image id L out i n p w")
    case (Inr w')
    with ps obtain v' E where
      v': "process_image id L out i n p v = Inr v'"
      and mw: "map_of (files w') = apply_effects E (map_of (files w))"
      and mv: "map_of (files v') = apply_effects E (map_of (files v))"
      and sv: "same_view out (files w') (files v')"
      by blast
    from Cons.IH [OF sv rest] obtain D where
      f: "fst (for_loop id L out n items w') = fst (for_loop id L out n items v')"
      and dw: "map_of (files (snd (for_loop id L out n items w')))
                 = apply_effects D (map_of (files w'))"
      and dv: "map_of (files (snd (for_loop id L out n items v')))
                 = apply_effects D (map_of (files v'))"
      by blast
    have lw: "for_loop id L out n (a # items) w = for_loop id L out n items w'"
      unfolding a by (simp only: for_loop.simps Inr sum.case)
    have lv: "for_loop id L out n (a # items) v = for_loop id L out n items v'"
      unfolding a by (simp only: for_loop.simps v' sum.case)
    show ?thesis
      unfolding lw lv
    proof (intro conjI exI [of _ "\<lambda>q. then_effect (E q) (D q)"])
      show "fst (for_loop id L out n items w') = fst (for_loop id L out n items v')" by (rule f)
      show "map_of (files (snd (for_loop id L out n items w')))
              = apply_effects (\<lambda>q. then_effect (E q) (D q)) (map_of (files w))"
        using mw dw by (rule effects_compose)
      show "map_of (files (snd (for_loop id L out n items v')))
              = apply_effects (\<lambda>q. then_effect (E q) (D q)) (map_of (files v))"
        using mv dv by (rule effects_compose)
    qed
  next
    case (Inl ew)
    obtain e w' where ew: "ew = (e, w')" by (cases ew)
    with Inl have pw: "process_image id L out i n p w = Inl (e, w')" by simp
    with ps obtain v' E where
      pv: "process_image id L out i n p v = Inl (e, v')"
      and mw: "map_of (files w') = apply_effects E (map_of (files w))"
      and mv: "map_of (files v') = apply_effects E (map_of (files v))"
      and sv: "same_view out (files w') (files v')"
      by blast
    show ?thesis
    proof (cases e)
      case KeyboardInterrupt
      have lw: "for_loop id L out n (a # items) w = (Some KeyboardInterrupt, w')"
        unfolding a using pw KeyboardInterrupt by simp
      have lv: "for_loop id L out n (a # items) v = (Some KeyboardInterrupt, v')"
        unfolding a using pv KeyboardInterrupt by simp
      from mw mv show ?thesis unfolding lw lv by (simp only: fst_conv snd_conv) blast
    next
      case (Exception msg)
      let ?s = "''Error processing '' @ name p @ '': '' @ msg"
      show ?thesis
      proof (cases "print_raises L ?s")
        case (Some m)
        have lw: "for_loop id L out n (a # items) w = (Some (Exception m), w')"
          unfolding a using pw Exception Some by (simp add: print_def)
        have lv: "for_loop id L out n (a # items) v = (Some (Exception m), v')"
          unfolding a using pv Exception Some by (simp add: print_def)
        from mw mv show ?thesis unfolding lw lv by (simp only: fst_conv snd_conv) blast
      next
        case None
        let ?w = "w'\<lparr>stdout := stdout w' @ [?s]\<rparr>"
        let ?v = "v'\<lparr>stdout := stdout v' @ [?s]\<rparr>"
        have lw: "for_loop id L out n (a # items) w = for_loop id L out n items ?w"
          unfolding a using pw Exception None by (simp add: print_def)
        have lv: "for_loop id L out n (a # items) v = for_loop id L out n items ?v"
          unfolding a using pv Exception None by (simp add: print_def)
        have fw: "files ?w = files w'" and fv: "files ?v = files v'" by simp_all
        from sv have sv': "same_view out (files ?w) (files ?v)" by (simp only: fw fv)
        from Cons.IH [OF sv' rest] obtain D where
          f: "fst (for_loop id L out n items ?w) = fst (for_loop id L out n items ?v)"
          and dw: "map_of (files (snd (for_loop id L out n items ?w)))
                     = apply_effects D (map_of (files w'))"
          and dv: "map_of (files (snd (for_loop id L out n items ?v)))
                     = apply_effects D (map_of (files v'))"
          unfolding fw fv by blast
        show ?thesis
          unfolding lw lv
        proof (intro conjI exI [of _ "\<lambda>q. then_effect (E q) (D q)"])
          show "fst (for_loop id L out n items ?w) = fst (for_loop id L out n items ?v)"
            by (rule f)
          show "map_of (files (snd (for_loop id L out n items ?w)))
                  = apply_effects (\<lambda>q. then_effect (E q) (D q)) (map_of (files w))"
            using mw dw by (rule effects_compose)
          show "map_of (files (snd (for_loop id L out n items ?v)))
                  = apply_effects (\<lambda>q. then_effect (E q) (D q)) (map_of (files v))"
            using mv dv by (rule effects_compose)
        qed
      qed
    qed
  qed
qed

lemma for_loop_preserves:
  assumes ok: "\<And>i p w w'. process_image K L out i n p w = Inr w' \<Longrightarrow> Q (files w') = Q (files w)"
    and fail: "\<And>i p w e w'. process_image K L out i n p w = Inl (e, w') \<Longrightarrow>
                 Q (files w') = Q (files w)"
  shows "Q (files (snd (for_loop K L out n items w))) = Q (files w)"
proof (induction items arbitrary: w)
  case Nil
  show ?case by simp
next
  case (Cons a items)
  obtain i p where a: "a = (i, p)" by (cases a)
  show ?case
  proof (cases "process_image K L out i n p w")
    case (Inr w')
    with Cons [of w'] a ok [OF Inr] show ?thesis by simp
  next
    case (Inl ew)
    obtain e w' where ew: "ew = (e, w')" by (cases ew)
    with Inl have "process_image K L out i n p w = Inl (e, w')" by simp
    from fail [OF this] have f: "Q (files w') = Q (files w)" .
    show ?thesis
    proof (cases e)
      case KeyboardInterrupt
      with Inl ew a f show ?thesis by simp
    next
      case (Exception msg)
      show ?thesis
      proof (cases "print_raises L (''Error processing '' @ name p @ '': '' @ msg)")
        case (Some m)
        with Exception Inl ew a f show ?thesis by (simp add: print_def)
      next
        case None
        with Exception Inl ew a f
          Cons [of "w'\<lparr>stdout := stdout w' @ [''Error processing '' @ name p @ '': '' @ msg]\<rparr>"]
        show ?thesis by (simp add: print_def)
      qed
    qed
  qed
qed

lemma process_image_files:
  assumes "process_image K L out i n p w = Inr w' \<or> process_image K L out i n p w = Inl (e, w')"
  shows "files w' = files w
         \<or> (\<exists>r. files w' = snd (save K L r (out @ [stem (name p) @ ''.jpg''])
                                  ''JPEG'' 85 True (files w)))"
  using assms
  by (auto simp: process_image_def print_def split: sum.splits prod.splits option.splits)
     (metis snd_conv)+

lemma save_dirs:
  "(map_of (snd (save K L im p fmt qu opt fs)) q = Some Dir) = (map_of fs q = Some Dir)"
proof (cases "map_of fs (K p) = Some Dir")
  case True
  then show ?thesis by (simp add: save_def)
next
  case False
  then show ?thesis
    by (auto simp: save_not_dir_eq update_conv'
             split: option.splits node.splits sum.splits exn.splits if_splits)
qed

lemma keys_update:
  "\<not> P k \<Longrightarrow> filter P (map fst (AList.update k v al)) = filter P (map fst al)"
  by (induction al) auto

lemma save_keys:
  assumes "\<not> P (K p)"
  shows "filter P (map fst (snd (save K L im p fmt qu opt fs))) = filter P (map fst fs)"
proof (cases "map_of fs (K p) = Some Dir")
  case True
  then show ?thesis by (simp add: save_def)
next
  case False
  with assms show ?thesis
    by (auto simp: save_not_dir_eq keys_update
             split: option.splits node.splits sum.splits exn.splits)
qed

lemma for_loop_dirs:
  "(map_of (files (snd (for_loop K L out n items w))) q = Some Dir)
     = (map_of (files w) q = Some Dir)"
proof (rule for_loop_preserves [where Q = "\<lambda>fs. map_of fs q = Some Dir"])
  fix i p w w'
  assume "process_image K L out i n p w = Inr w'"
  then have "process_image K L out i n p w = Inr w'
      \<or> process_image K L out i n p w = Inl (KeyboardInterrupt, w')" by simp
  from process_image_files [OF this]
  show "(map_of (files w') q = Some Dir) = (map_of (files w) q = Some Dir)"
    by (auto simp: save_dirs)
next
  fix i p w e w'
  assume "process_image K L out i n p w = Inl (e, w')"
  then have "process_image K L out i n p w = Inr w'
      \<or> process_image K L out i n p w = Inl (e, w')" by simp
  from process_image_files [OF this]
  show "(map_of (files w') q = Some Dir) = (map_of (files w) q = Some Dir)"
    by (auto simp: save_dirs)
qed

lemma for_loop_keys:
  assumes "d \<noteq> out"
  shows "filter (\<lambda>q. q \<noteq> [] \<and> parent q = d)
           (map fst (files (snd (for_loop id L out n items w))))
         = filter (\<lambda>q. q \<noteq> [] \<and> parent q = d) (map fst (files w))"
proof (rule for_loop_preserves [where Q = "\<lambda>fs. filter (\<lambda>q. q \<noteq> [] \<and> parent q = d) (map fst fs)"])
  fix i p w w'
  have n: "\<not> (\<lambda>q. q \<noteq> [] \<and> parent q = d) (id (out @ [stem (name p) @ ''.jpg'']))"
    using assms by (simp add: parent_child)
  assume "process_image id L out i n p w = Inr w'"
  then have "process_image id L out i n p w = Inr w'
      \<or> process_image id L out i n p w = Inl (KeyboardInterrupt, w')" by simp
  from process_image_files [OF this] save_keys [where P = "\<lambda>q. q \<noteq> [] \<and> parent q = d" and K = id
      and p = "out @ [stem (name p) @ ''.jpg'']", OF n]
  show "filter (\<lambda>q. q \<noteq> [] \<and> parent q = d) (map fst (files w'))
        = filter (\<lambda>q. q \<noteq> [] \<and> parent q = d) (map fst (files w))"
    by auto
next
  fix i p w e w'
  have n: "\<not> (\<lambda>q. q \<noteq> [] \<and> parent q = d) (id (out @ [stem (name p) @ ''.jpg'']))"
    using assms by (simp add: parent_child)
  assume "process_image id L out i n p w = Inl (e, w')"
  then have "process_image id L out i n p w = Inr w'
      \<or> process_image id L out i n p w = Inl (e, w')" by simp
  from process_image_files [OF this] save_keys [where P = "\<lambda>q. q \<noteq> [] \<and> parent q = d" and K = id
      and p = "out @ [stem (name p) @ ''.jpg'']", OF n]
  show "filter (\<lambda>q. q \<noteq> [] \<and> parent q = d) (map fst (files w'))
        = filter (\<lambda>q. q \<noteq> [] \<and> parent q = d) (map fst (files w))"
    by auto
qed

lemma for_loop_listing:
  "image_files id file (files (snd (for_loop id L (output_dir file) n items w)))
     = image_files id file (files w)"
proof -
  have "\<forall>x. cocktails_dir file \<noteq> id (output_dir file @ [x])"
    by (simp add: cocktails_dir_def output_dir_def)
  then have m: "map_of (files (snd (for_loop id L (output_dir file) n items w)))
                  (cocktails_dir file)
        = map_of (files w) (cocktails_dir file)"
    by (rule for_loop_frame)
  have "cocktails_dir file \<noteq> output_dir file"
    using dirs_differ [of "file"] by simp
  then have k: "filter (\<lambda>q. q \<noteq> [] \<and> parent q = cocktails_dir file)
             (map fst (files (snd (for_loop id L (output_dir file) n items w))))
        = filter (\<lambda>q. q \<noteq> [] \<and> parent q = cocktails_dir file) (map fst (files w))"
    by (rule for_loop_keys)
  show ?thesis
    by (simp only: image_files_def iterdir_def id_apply m k)
qed

lemma image_files_parent:
  "image_files K file fs = Inr fl \<Longrightarrow> \<forall>p \<in> set fl. parent p = cocktails_dir file"
  by (auto simp: image_files_def iterdir_def parent_child
           split: sum.splits option.splits node.splits)

lemma mkdir_is_dir: "mkdir_exist_ok K d fs = Inr fs1 \<Longrightarrow> map_of fs1 (K d) = Some Dir"
  by (auto simp: mkdir_exist_ok_def map_add_def split: option.splits node.splits)

lemma main_of_mkdir_error:
  "mkdir_exist_ok K (output_dir file) (files w) = Inl e \<Longrightarrow>
   fst (main K L file w) = 1 \<and> files (snd (main K L file w)) = files w"
  by (cases e) (auto simp: main_def resize_images_def print_def split: option.splits)

lemma main_of_listing_error:
  "mkdir_exist_ok K (output_dir file) (files w) = Inr fs1 \<Longrightarrow> image_files K file fs1 = Inl e \<Longrightarrow>
   fst (main K L file w) = 1 \<and> files (snd (main K L file w)) = fs1"
  by (cases e) (auto simp: main_def resize_images_def print_def split: option.splits)

lemma main_of_count_error:
  "mkdir_exist_ok K (output_dir file) (files w) = Inr fs1 \<Longrightarrow> image_files K file fs1 = Inr fl \<Longrightarrow>
   print_raises L (''Found '' @ str_nat (length fl) @ '' images to resize...'') = Some m \<Longrightarrow>
   fst (main K L file w) = 1 \<and> files (snd (main K L file w)) = fs1"
  by (auto simp: main_def resize_images_def print_def split: option.splits)

lemma main_of_loop:
  assumes "mkdir_exist_ok K (output_dir file) (files w) = Inr fs1"
    and "image_files K file fs1 = Inr fl"
    and "print_raises L (''Found '' @ str_nat (length fl) @ '' images to resize...'') = None"
  shows "fst (main K L file w) =
           (case fst (for_loop K L (output_dir file) (length fl) (zip [1 ..< Suc (length fl)] fl)
                  (w\<lparr>files := fs1,
                     stdout := stdout w
                       @ [''Found '' @ str_nat (length fl) @ '' images to resize...'']\<rparr>)) of
              None \<Rightarrow> if list_all (\<lambda>s. print_raises L s = None) (banner file) then 0 else 1
            | Some e \<Rightarrow> 1)
       \<and> files (snd (main K L file w)) =
           files (snd (for_loop K L (output_dir file) (length fl) (zip [1 ..< Suc (length fl)] fl)
                  (w\<lparr>files := fs1,
                     stdout := stdout w
                       @ [''Found '' @ str_nat (length fl) @ '' images to resize...'']\<rparr>)))"
proof -
  let ?r = "for_loop K L (output_dir file) (length fl) (zip [1 ..< Suc (length fl)] fl)
                  (w\<lparr>files := fs1,
                     stdout := stdout w
                       @ [''Found '' @ str_nat (length fl) @ '' images to resize...'']\<rparr>)"
  obtain r w3 where l: "?r = (r, w3)" by (cases ?r)
  show ?thesis
  proof (cases r)
    case (Some e)
    with l have "fst ?r = Some e" by simp
    from resize_images_result [OF assms this]
    have 1: "fst (resize_images K L file w) = Some e" .
    have 2: "files (snd (resize_images K L file w)) = files w3"
      using assms l Some by (simp add: resize_images_def print_def del: upt_Suc)
    from 1 2 l Some show ?thesis
      by (simp only: main_exit_code main_files fst_conv snd_conv option.case simp_thms)
  next
    case None
    with l have "?r = (None, w3)" by simp
    from resize_images_banner [OF assms this]
    have b: "resize_images K L file w = print_all L (banner file) w3" .
    have 1: "(fst (resize_images K L file w) = None)
        = list_all (\<lambda>s. print_raises L s = None) (banner file)"
      by (simp add: b print_all_fst)
    have 2: "files (snd (resize_images K L file w)) = files w3"
      by (simp add: b print_all_files)
    have "fst (main K L file w)
        = (if list_all (\<lambda>s. print_raises L s = None) (banner file) then 0 else 1)"
    proof (cases "list_all (\<lambda>s. print_raises L s = None) (banner file)")
      case True
      with 1 have "fst (resize_images K L file w) = None" by simp
      with True show ?thesis by (simp add: main_exit_code)
    next
      case False
      with 1 obtain e where "fst (resize_images K L file w) = Some e" by auto
      with False show ?thesis by (simp add: main_exit_code)
    qed
    with 2 l None show ?thesis
      by (simp only: main_files fst_conv snd_conv option.case simp_thms)
  qed
qed

text \<open>
  Claim C9. On a filesystem without links and with case-sensitive names, run the script,
  then run it again on what the first run left, without clearing the destination
  directory: the second run ends with the same exit code and leaves every path of the
  filesystem, so every output file, with the bytes it had after the first run.
  The library calls and the console are functions of their arguments in this model, so
  the determinism of the codecs is taken for granted; what is proved is that the script
  adds no dependence on the state of the destination directory, also when a save fails
  and empties an output file or when a line cannot be printed.
\<close>

theorem second_run_same_files:
  assumes "main id L file w = (c1, w1)" and "main id L file w1 = (c2, w2)"
  shows "c2 = c1 \<and> map_of (files w2) = map_of (files w1)"
proof (cases "mkdir_exist_ok id (output_dir file) (files w)")
  case (Inl e)
  from main_of_mkdir_error [OF Inl, of L] assms(1)
  have 1: "c1 = 1" "files w1 = files w" by simp_all
  with Inl have "mkdir_exist_ok id (output_dir file) (files w1) = Inl e" by simp
  from main_of_mkdir_error [OF this, of L] assms(2)
  have "c2 = 1" "files w2 = files w1" by simp_all
  with 1 show ?thesis by simp
next
  case (Inr fs1)
  have d1: "map_of fs1 (id (output_dir file)) = Some Dir" by (rule mkdir_is_dir [OF Inr])
  show ?thesis
  proof (cases "image_files id file fs1")
    case (Inl e)
    from main_of_listing_error [OF Inr Inl, of L] assms(1)
    have 1: "c1 = 1" "files w1 = fs1" by simp_all
    have "mkdir_exist_ok id (output_dir file) (files w1) = Inr fs1"
      unfolding 1 by (rule mkdir_existing [where K = id and d = "output_dir file", OF d1])
    from main_of_listing_error [OF this Inl, of L] assms(2)
    have "c2 = 1" "files w2 = fs1" by simp_all
    with 1 show ?thesis by simp
  next
    case fl: (Inr fl)
    let ?found = "''Found '' @ str_nat (length fl) @ '' images to resize...''"
    show ?thesis
    proof (cases "print_raises L ?found")
      case (Some m)
      from main_of_count_error [OF Inr fl Some] assms(1)
      have 1: "c1 = 1" "files w1 = fs1" by simp_all
      have "mkdir_exist_ok id (output_dir file) (files w1) = Inr fs1"
        unfolding 1 by (rule mkdir_existing [where K = id and d = "output_dir file", OF d1])
      from main_of_count_error [OF this fl Some] assms(2)
      have "c2 = 1" "files w2 = fs1" by simp_all
      with 1 show ?thesis by simp
    next
      case None
      let ?out = "output_dir file"
      let ?items = "zip [1 ..< Suc (length fl)] fl"
      let ?wA = "w\<lparr>files := fs1, stdout := stdout w @ [?found]\<rparr>"
      let ?r1 = "for_loop id L ?out (length fl) ?items ?wA"
      let ?F = "files (snd ?r1)"
      let ?g = "\<lambda>r. case r of
                   None \<Rightarrow> if list_all (\<lambda>s. print_raises L s = None) (banner file)
                           then 0 else (1 :: nat)
                 | Some (e :: exn) \<Rightarrow> 1"
      have fA: "files ?wA = fs1" by simp
      from main_of_loop [OF Inr fl None] assms(1)
      have c1: "c1 = ?g (fst ?r1)" and f1: "files w1 = ?F"
        by simp_all
      have dF: "map_of ?F (id ?out) = Some Dir"
        using d1 by (simp only: for_loop_dirs fA)
      have m2: "mkdir_exist_ok id ?out (files w1) = Inr ?F"
        unfolding f1 by (rule mkdir_existing [where K = id and d = "output_dir file", OF dF])
      have l2: "image_files id file ?F = Inr fl"
        using fl by (simp only: for_loop_listing fA)
      let ?wB = "w1\<lparr>files := ?F, stdout := stdout w1 @ [?found]\<rparr>"
      let ?r2 = "for_loop id L ?out (length fl) ?items ?wB"
      have fB: "files ?wB = ?F" by simp
      from main_of_loop [OF m2 l2 None] assms(2)
      have c2: "c2 = ?g (fst ?r2)" and f2: "files w2 = files (snd ?r2)"
        by simp_all
      have sv: "same_view ?out (files ?wA) (files ?wB)"
        unfolding fB same_view_def
      proof (intro conjI allI impI)
        fix p assume "parent p \<noteq> ?out"
        then have "\<forall>x. p \<noteq> id (?out @ [x])" by (auto simp: parent_child)
        then show "map_of (files ?wA) p = map_of ?F p" by (rule for_loop_frame [symmetric])
      next
        fix p show "(map_of (files ?wA) p = Some Dir) = (map_of ?F p = Some Dir)"
          by (rule for_loop_dirs [symmetric])
      qed
      have it: "\<forall>ip \<in> set ?items. parent (snd ip) \<noteq> ?out"
      proof
        fix ip assume "ip \<in> set ?items"
        then have "(fst ip, snd ip) \<in> set ?items" by (simp only: prod.collapse)
        then have "snd ip \<in> set fl" by (rule set_zip_rightD)
        with image_files_parent [OF fl] have "parent (snd ip) = cocktails_dir file" by blast
        then show "parent (snd ip) \<noteq> ?out" using dirs_differ [of "file"] by simp
      qed
      from sim_loop [OF output_dir_nonempty sv it, of L "length fl"] obtain D where
        e: "fst ?r1 = fst ?r2"
        and dA: "map_of ?F = apply_effects D (map_of (files ?wA))"
        and dB: "map_of (files (snd ?r2)) = apply_effects D (map_of (files ?wB))"
        by blast
      have "map_of (files (snd ?r2)) = apply_effects D (map_of ?F)" using dB by (simp only: fB)
      also have "\<dots> = apply_effects D (apply_effects D (map_of (files ?wA)))"
        by (simp only: dA [symmetric])
      also have "\<dots> = apply_effects D (map_of (files ?wA))" by (rule apply_effects_twice)
      also have "\<dots> = map_of ?F" by (rule dA [symmetric])
      finally have "map_of (files w2) = map_of (files w1)" by (simp only: f1 f2)
      moreover have "c2 = c1" by (simp only: c1 c2 e)
      ultimately show ?thesis by simp
    qed
  qed
qed

theorem second_run_same_files_witness:
  "main id test_env test_file \<lparr>files = test_fs, stdout = []\<rparr>
     = (0, \<lparr>files = test_fs @ [(dst_dir, Dir), (dst_dir @ [''a.jpg''], File [7, 8, 9])],
           stdout = [''Found 3 images to resize...'', ''Resized 1/3: a.PNG'',
                     ''Error processing bad.webp: cannot identify image file'',
                     ''Resized 3/3: a.jpg'',
                     [CHR 0x0A, CHR 0xE2, CHR 0x9C, CHR 0x85]
                       @ '' All images resized successfully!'',
                     ''Resized images saved to: /repo/assets/cocktails-resized'',
                     ''After verifying the resized images, replace the original folder.'']\<rparr>)
   \<and> main id test_env test_file
        \<lparr>files = test_fs @ [(dst_dir, Dir), (dst_dir @ [''a.jpg''], File [7, 8, 9])],
           stdout = [''Found 3 images to resize...'', ''Resized 1/3: a.PNG'',
                     ''Error processing bad.webp: cannot identify image file'',
                     ''Resized 3/3: a.jpg'',
                     [CHR 0x0A, CHR 0xE2, CHR 0x9C, CHR 0x85]
                       @ '' All images resized successfully!'',
                     ''Resized images saved to: /repo/assets/cocktails-resized'',
                     ''After verifying the resized images, replace the original folder.'']\<rparr>
     = (0, \<lparr>files = test_fs @ [(dst_dir, Dir), (dst_dir @ [''a.jpg''], File [7, 8, 9])],
           stdout = [''Found 3 images to resize...'', ''Resized 1/3: a.PNG'',
                     ''Error processing bad.webp: cannot identify image file'',
                     ''Resized 3/3: a.jpg'',
                     [CHR 0x0A, CHR 0xE2, CHR 0x9C, CHR 0x85]
                       @ '' All images resized successfully!'',
                     ''Resized images saved to: /repo/assets/cocktails-resized'',
                     ''After verifying the resized images, replace the original folder.'']
             @ [''Found 3 images to resize...'', ''Resized 1/3: a.PNG'',
                     ''Error processing bad.webp: cannot identify image file'',
                     ''Resized 3/3: a.jpg'',
                     [CHR 0x0A, CHR 0xE2, CHR 0x9C, CHR 0x85]
                       @ '' All images resized successfully!'',
                     ''Resized images saved to: /repo/assets/cocktails-resized'',
                     ''After verifying the resized images, replace the original folder.'']\<rparr>)
   \<and> ((0 :: nat) = 0
      \<and> map_of (files \<lparr>files = test_fs @ [(dst_dir, Dir), (dst_dir @ [''a.jpg''], File [7, 8, 9])],
           stdout = [''Found 3 images to resize...'', ''Resized 1/3: a.PNG'',
                     ''Error processing bad.webp: cannot identify image file'',
                     ''Resized 3/3: a.jpg'',
                     [CHR 0x0A, CHR 0xE2, CHR 0x9C, CHR 0x85]
                       @ '' All images resized successfully!'',
                     ''Resized images saved to: /repo/assets/cocktails-resized'',
                     ''After verifying the resized images, replace the original folder.'']
             @ [''Found 3 images to resize...'', ''Resized 1/3: a.PNG'',
                     ''Error processing bad.webp: cannot identify image file'',
                     ''Resized 3/3: a.jpg'',
                     [CHR 0x0A, CHR 0xE2, CHR 0x9C, CHR 0x85]
                       @ '' All images resized successfully!'',
                     ''Resized images saved to: /repo/assets/cocktails-resized'',
                     ''After verifying the resized images, replace the original folder.'']\<rparr>)
        = map_of (files \<lparr>files = test_fs @ [(dst_dir, Dir), (dst_dir @ [''a.jpg''], File [7, 8, 9])],
           stdout = [''Found 3 images to resize...'', ''Resized 1/3: a.PNG'',
                     ''Error processing bad.webp: cannot identify image file'',
                     ''Resized 3/3: a.jpg'',
                     [CHR 0x0A, CHR 0xE2, CHR 0x9C, CHR 0x85]
                       @ '' All images resized successfully!'',
                     ''Resized images saved to: /repo/assets/cocktails-resized'',
                     ''After verifying the resized images, replace the original folder.'']\<rparr>))"
proof -
  have h1: "main id test_env test_file \<lparr>files = test_fs, stdout = []\<rparr>
     = (0, \<lparr>files = test_fs @ [(dst_dir, Dir), (dst_dir @ [''a.jpg''], File [7, 8, 9])],
           stdout = [''Found 3 images to resize...'', ''Resized 1/3: a.PNG'',
                     ''Error processing bad.webp: cannot identify image file'',
                     ''Resized 3/3: a.jpg'',
                     [CHR 0x0A, CHR 0xE2, CHR 0x9C, CHR 0x85]
                       @ '' All images resized successfully!'',
                     ''Resized images saved to: /repo/assets/cocktails-resized'',
                     ''After verifying the resized images, replace the original folder.'']\<rparr>)"
    by (simp add: main_defs)
  have h2: "main id test_env test_file
        \<lparr>files = test_fs @ [(dst_dir, Dir), (dst_dir @ [''a.jpg''], File [7, 8, 9])],
           stdout = [''Found 3 images to resize...'', ''Resized 1/3: a.PNG'',
                     ''Error processing bad.webp: cannot identify image file'',
                     ''Resized 3/3: a.jpg'',
                     [CHR 0x0A, CHR 0xE2, CHR 0x9C, CHR 0x85]
                       @ '' All images resized successfully!'',
                     ''Resized images saved to: /repo/assets/cocktails-resized'',
                     ''After verifying the resized images, replace the original folder.'']\<rparr>
     = (0, \<lparr>files = test_fs @ [(dst_dir, Dir), (dst_dir @ [''a.jpg''], File [7, 8, 9])],
           stdout = [''Found 3 images to resize...'', ''Resized 1/3: a.PNG'',
                     ''Error processing bad.webp: cannot identify image file'',
                     ''Resized 3/3: a.jpg'',
                     [CHR 0x0A, CHR 0xE2, CHR 0x9C, CHR 0x85]
                       @ '' All images resized successfully!'',
                     ''Resized images saved to: /repo/assets/cocktails-resized'',
                     ''After verifying the resized images, replace the original folder.'']
             @ [''Found 3 images to resize...'', ''Resized 1/3: a.PNG'',
                     ''Error processing bad.webp: cannot identify image file'',
                     ''Resized 3/3: a.jpg'',
                     [CHR 0x0A, CHR 0xE2, CHR 0x9C, CHR 0x85]
                       @ '' All images resized successfully!'',
                     ''Resized images saved to: /repo/assets/cocktails-resized'',
                     ''After verifying the resized images, replace the original folder.'']\<rparr>)"
    by (simp add: main_defs)
  show ?thesis
    by (rule conjI [OF h1 conjI [OF h2 second_run_same_files [OF h1 h2]]])
qed

end
